theory Spec2Isabelle
  imports Main "HOL-Library.Word"
begin

section \<open>Text and numbers of the command line\<close>

text \<open>
  The tool reads its module numbers and values with \<^verbatim>\<open>atoi\<close> and builds section
  names with \<^verbatim>\<open>std::to_string\<close>. Both are functions of the C and C++ standard
  libraries; they are written out here so that \<open>moduleName\<close> and the command line can be
  evaluated. A C \<^verbatim>\<open>int\<close> has 32 bits. The C standard leaves \<^verbatim>\<open>atoi\<close> of a numeral
  outside the range of \<^verbatim>\<open>int\<close> undefined; the model is what the GNU C library does
  where \<^verbatim>\<open>long\<close> has 64 bits: \<^verbatim>\<open>atoi(s)\<close> is \<^verbatim>\<open>(int) strtol(s, NULL, 10)\<close>, so the numeral
  is read (\<open>decimal\<close>), kept within the range of \<^verbatim>\<open>long\<close> (\<open>strtol\<close>), and cut to its low
  32 bits (\<open>int32\<close>). Arithmetic on an \<^verbatim>\<open>int\<close> wraps around in the same way.
\<close>

definition digit_char :: "nat \<Rightarrow> char" where
  "digit_char d = char_of (48 + d)"

fun digits :: "nat \<Rightarrow> string" where
  "digits n = (if n < 10 then [digit_char n] else digits (n div 10) @ [digit_char (n mod 10)])"

declare digits.simps [simp del]

definition to_string :: "int \<Rightarrow> string" where
  "to_string n = (if n < 0 then CHR ''-'' # digits (nat (- n)) else digits (nat n))"

definition isspace :: "char \<Rightarrow> bool" where
  "isspace c = (c \<in> set [CHR '' '', CHR 0x09, CHR 0x0A, CHR 0x0B, CHR 0x0C, CHR 0x0D])"

definition isdigit :: "char \<Rightarrow> bool" where
  "isdigit c = (48 \<le> (of_char c :: nat) \<and> (of_char c :: nat) \<le> 57)"

definition digit_val :: "char \<Rightarrow> int" where
  "digit_val c = int (of_char c) - 48"

fun atoi_digits :: "int \<Rightarrow> string \<Rightarrow> int" where
  "atoi_digits acc [] = acc"
| "atoi_digits acc (c # cs) = (if isdigit c then atoi_digits (acc * 10 + digit_val c) cs else acc)"

definition decimal :: "string \<Rightarrow> int" where
  "decimal s =
     (case dropWhile isspace s of
        [] \<Rightarrow> 0
      | c # cs \<Rightarrow>
          if c = CHR ''-'' then - atoi_digits 0 cs
          else if c = CHR ''+'' then atoi_digits 0 cs
          else atoi_digits 0 (c # cs))"

definition strtol :: "string \<Rightarrow> int" where
  "strtol s = max (- 9223372036854775808) (min 9223372036854775807 (decimal s))"

definition int32 :: "int \<Rightarrow> int" where
  "int32 x = (x + 2147483648) mod 4294967296 - 2147483648"

definition atoi :: "string \<Rightarrow> int" where
  "atoi s = int32 (strtol s)"

text \<open>
  \<^verbatim>\<open>moduleName\<close> (main.cpp, lines 50 to 52). Its argument is a module index; the sum
  \<^verbatim>\<open>num+1\<close> leaves the range of \<^verbatim>\<open>int\<close> for the greatest \<^verbatim>\<open>int\<close> only, which \<^verbatim>\<open>main\<close>
  refuses as an index before it uses the name.
\<close>

definition moduleName :: "int \<Rightarrow> string" where
  "moduleName num = ''display:'' @ to_string (num + 1)"


section \<open>The display chain\<close>

text \<open>
  The chain class \<^verbatim>\<open>devices::LocalMAX7219\<close>, the state synchroniser (\<^verbatim>\<open>loadState\<close>,
  \<^verbatim>\<open>saveState\<close>) and the store \<^verbatim>\<open>util::IniState\<close> are used by main.cpp and declared in
  headers that are not part of the sources. Their operations are modelled from the
  specification (sections 3, 4 and 6); each such definition says so. What the
  specification leaves open is a parameter, collected in \<open>library\<close>: the default
  brightness, the number of modules and the write mode of a new chain, whether an
  empty chain is supported, and what \<^verbatim>\<open>reset\<close> does to a module. The type of
  \<^verbatim>\<open>numDevices()\<close> is declared in those headers too; the number of modules is a \<open>nat\<close>
  here. The transport is outside of the model: the chain records the transactions it
  sends in \<open>bus\<close>, and the set-up of the bus in lines 68 to 75 of main.cpp leaves no
  mark. Writes to the bus and to the state file are assumed to succeed. The field
  \<open>mvalue\<close> is the specification's \<open>value\<close>, and \<open>stored\<close> is the content of the state
  file.
\<close>

datatype error = OutOfRange | InvalidArgument | ParseError

record module =
  mvalue :: "int option"
  hasValue :: bool
  brightness :: int
  powered :: bool
  dirty :: bool

text \<open>A frame: what a module shows (\<open>None\<close> is blank), its brightness and its power bit.\<close>

type_synonym frame = "int option \<times> int \<times> bool"

record max7219 =
  modules :: "module list"
  immediateWrite :: bool
  bus :: "frame list list"

record library =
  defaultBrightness :: int
  defaultDevices :: nat
  defaultImmediate :: bool
  zeroDevices :: bool
  resetModule :: "module \<Rightarrow> module"

text \<open>Modelled from the spec: a module's default state is unset, default brightness, powered (section 3).\<close>

definition newModule :: "library \<Rightarrow> module" where
  "newModule lib =
     \<lparr>mvalue = None, hasValue = False, brightness = defaultBrightness lib,
      powered = True, dirty = False\<rparr>"

text \<open>Modelled from the spec: the chain is created with its modules in the default state and nothing sent (section 3, lifecycle).\<close>

definition LocalMAX7219 :: "library \<Rightarrow> max7219" where
  "LocalMAX7219 lib =
     \<lparr>modules = replicate (defaultDevices lib) (newModule lib),
      immediateWrite = defaultImmediate lib, bus = []\<rparr>"

text \<open>Modelled from the spec: \<open>numModules\<close> is the length of the chain (section 6).\<close>

definition numDevices :: "max7219 \<Rightarrow> nat" where
  "numDevices c = length (modules c)"

text \<open>Modelled from the spec: \<open>resize(count)\<close> fails after a flush and for a negative or unsupported zero count, and otherwise truncates or extends the sequence (section 4.1).\<close>

definition setNumDevices :: "library \<Rightarrow> max7219 \<Rightarrow> int \<Rightarrow> error + max7219" where
  "setNumDevices lib c count =
     (if bus c \<noteq> [] \<or> count < 0 \<or> (count = 0 \<and> \<not> zeroDevices lib) then Inl InvalidArgument
      else Inr (c\<lparr>modules := take (nat count) (modules c) @
                  replicate (nat count - numDevices c) (newModule lib)\<rparr>))"

text \<open>Modelled from the spec: \<open>setImmediateWrite\<close> is a switch with no other effect (section 4.1).\<close>

definition writeImmediately :: "max7219 \<Rightarrow> bool \<Rightarrow> max7219" where
  "writeImmediately c enabled = c\<lparr>immediateWrite := enabled\<rparr>"

text \<open>Modelled from the spec: the rendered state of a module is blank when \<open>hasValue\<close> is false, whatever the value (section 3).\<close>

definition render :: "module \<Rightarrow> frame" where
  "render m = (if hasValue m then mvalue m else None, brightness m, powered m)"

text \<open>Modelled from the spec: a mutator that changed module \<open>i\<close> into \<open>m\<close> writes its register at once in immediate mode, and only marks it dirty otherwise; one that changed nothing does neither (section 4.1).\<close>

definition mutate :: "max7219 \<Rightarrow> nat \<Rightarrow> module \<Rightarrow> bool \<Rightarrow> max7219" where
  "mutate c i m changed =
     (if changed then
        (if immediateWrite c then c\<lparr>modules := (modules c)[i := m], bus := bus c @ [[render m]]\<rparr>
         else c\<lparr>modules := (modules c)[i := m\<lparr>dirty := True\<rparr>]\<rparr>)
      else c\<lparr>modules := (modules c)[i := m]\<rparr>)"

text \<open>Modelled from the spec: \<open>setValue(index, value)\<close> (section 4.1).\<close>

definition setNumber :: "max7219 \<Rightarrow> nat \<Rightarrow> int \<Rightarrow> error + max7219" where
  "setNumber c i v =
     (if \<not> i < numDevices c then Inl OutOfRange
      else Inr (mutate c i ((modules c ! i)\<lparr>mvalue := Some v, hasValue := True\<rparr>)
                  (\<not> (hasValue (modules c ! i) \<and> mvalue (modules c ! i) = Some v))))"

text \<open>Modelled from the spec: \<open>clear(index)\<close> (section 4.1).\<close>

definition clear :: "max7219 \<Rightarrow> nat \<Rightarrow> error + max7219" where
  "clear c i =
     (if \<not> i < numDevices c then Inl OutOfRange
      else Inr (mutate c i ((modules c ! i)\<lparr>hasValue := False\<rparr>) (hasValue (modules c ! i))))"

text \<open>Modelled from the spec: \<open>setBrightness(index, level)\<close> validates the index, then the level (section 4.1).\<close>

definition setBrightness :: "max7219 \<Rightarrow> nat \<Rightarrow> int \<Rightarrow> error + max7219" where
  "setBrightness c i level =
     (if \<not> i < numDevices c then Inl OutOfRange
      else if level < 0 \<or> 15 < level then Inl InvalidArgument
      else Inr (mutate c i ((modules c ! i)\<lparr>brightness := level\<rparr>)
                  (brightness (modules c ! i) \<noteq> level)))"

text \<open>Modelled from the spec: \<open>setPower(index, on)\<close> (section 4.1).\<close>

definition setPower :: "max7219 \<Rightarrow> nat \<Rightarrow> bool \<Rightarrow> error + max7219" where
  "setPower c i on =
     (if \<not> i < numDevices c then Inl OutOfRange
      else Inr (mutate c i ((modules c ! i)\<lparr>powered := on\<rparr>) (powered (modules c ! i) \<noteq> on)))"

text \<open>Modelled from the spec: \<open>markAllDirty\<close> and \<open>markAllClean\<close> set every dirty flag and touch nothing else (section 4.1).\<close>

definition setDirty :: "max7219 \<Rightarrow> max7219" where
  "setDirty c = c\<lparr>modules := map (\<lambda>m. m\<lparr>dirty := True\<rparr>) (modules c)\<rparr>"

definition setClean :: "max7219 \<Rightarrow> max7219" where
  "setClean c = c\<lparr>modules := map (\<lambda>m. m\<lparr>dirty := False\<rparr>) (modules c)\<rparr>"

text \<open>Modelled from the spec: \<open>flush\<close> sends the frames of all modules, in index order, as one transaction when immediate mode is off, and then clears the dirty flags (section 4.1).\<close>

definition sendData :: "max7219 \<Rightarrow> max7219" where
  "sendData c =
     (if immediateWrite c then c
      else c\<lparr>modules := map (\<lambda>m. m\<lparr>dirty := False\<rparr>) (modules c),
              bus := bus c @ [map render (modules c)]\<rparr>)"

text \<open>The specification does not describe \<^verbatim>\<open>reset\<close>: it is taken to act on each module by the parameter \<open>resetModule\<close>.\<close>

definition reset :: "library \<Rightarrow> max7219 \<Rightarrow> max7219" where
  "reset lib c = c\<lparr>modules := map (resetModule lib) (modules c)\<rparr>"


section \<open>The persistent store\<close>

type_synonym ini_section = "string \<rightharpoonup> string"

record IniState =
  sections :: "string \<rightharpoonup> ini_section"
  storeDirty :: bool
  stored :: "string \<rightharpoonup> ini_section"

text \<open>Modelled from the spec: the store reads its file into sections, answers existence checks, reads and writes options, and has one dirty flag; \<open>save\<close> writes the file only when the flag is set (sections 2 and 6).\<close>

definition load :: "IniState \<Rightarrow> IniState" where
  "load cfg = cfg\<lparr>sections := stored cfg\<rparr>"

definition has :: "IniState \<Rightarrow> string \<Rightarrow> bool" where
  "has cfg name = (sections cfg name \<noteq> None)"

definition section_at :: "IniState \<Rightarrow> string \<Rightarrow> ini_section" where
  "section_at cfg name = (case sections cfg name of None \<Rightarrow> Map.empty | Some sec \<Rightarrow> sec)"

definition has_option :: "IniState \<Rightarrow> string \<Rightarrow> string \<Rightarrow> bool" where
  "has_option cfg name key = (has cfg name \<and> section_at cfg name key \<noteq> None)"

definition option_at :: "IniState \<Rightarrow> string \<Rightarrow> string \<Rightarrow> string" where
  "option_at cfg name key = (case section_at cfg name key of None \<Rightarrow> [] | Some v \<Rightarrow> v)"

definition put_section :: "IniState \<Rightarrow> string \<Rightarrow> ini_section \<Rightarrow> IniState" where
  "put_section cfg name sec = cfg\<lparr>sections := (sections cfg)(name \<mapsto> sec)\<rparr>"

definition markDirty :: "IniState \<Rightarrow> IniState" where
  "markDirty cfg = cfg\<lparr>storeDirty := True\<rparr>"

definition save :: "IniState \<Rightarrow> IniState" where
  "save cfg = (if storeDirty cfg then cfg\<lparr>stored := sections cfg, storeDirty := False\<rparr> else cfg)"


section \<open>The state synchroniser\<close>

definition keyValue :: string where "keyValue = ''value''"
definition keyHasValue :: string where "keyHasValue = ''hasValue''"
definition keyBrightness :: string where "keyBrightness = ''brightness''"
definition keyPower :: string where "keyPower = ''power''"

text \<open>Numeric text of the store: an optional minus sign and at least one digit, nothing else.\<close>

definition parseInt :: "string \<Rightarrow> int option" where
  "parseInt t =
     (let ds = (case t of c # cs \<Rightarrow> if c = CHR ''-'' then cs else t | [] \<Rightarrow> t)
      in if ds \<noteq> [] \<and> list_all isdigit ds then Some (decimal t) else None)"

definition readInt :: "ini_section \<Rightarrow> string \<Rightarrow> error + int option" where
  "readInt sec key =
     (case sec key of
        None \<Rightarrow> Inr None
      | Some t \<Rightarrow> (case parseInt t of None \<Rightarrow> Inl ParseError | Some n \<Rightarrow> Inr (Some n)))"

definition andThen :: "error + 'a \<Rightarrow> ('a \<Rightarrow> error + 'b) \<Rightarrow> error + 'b" where
  "andThen r f = (case r of Inl e \<Rightarrow> Inl e | Inr x \<Rightarrow> f x)"

definition whenSome :: "'a option \<Rightarrow> ('a \<Rightarrow> max7219 \<Rightarrow> error + max7219) \<Rightarrow> max7219 \<Rightarrow> error + max7219" where
  "whenSome x f c = (case x of None \<Rightarrow> Inr c | Some v \<Rightarrow> f v c)"

text \<open>Modelled from the spec: \<open>load(section, chain, index)\<close> reads the keys that are present, fails with \<open>ParseError\<close> on malformed numeric text before it changes anything, and applies the values through the mutators of the chain (section 4.2).\<close>

definition loadState :: "ini_section \<Rightarrow> max7219 \<Rightarrow> nat \<Rightarrow> error + max7219" where
  "loadState sec c i =
     andThen (readInt sec keyValue) (\<lambda>v.
     andThen (readInt sec keyHasValue) (\<lambda>h.
     andThen (readInt sec keyBrightness) (\<lambda>b.
     andThen (readInt sec keyPower) (\<lambda>p.
     andThen (whenSome v (\<lambda>n c. setNumber c i n) c) (\<lambda>c1.
     andThen (whenSome h (\<lambda>n c. if n = 0 then clear c i else Inr c) c1) (\<lambda>c2.
     andThen (whenSome b (\<lambda>n c. setBrightness c i n) c2) (\<lambda>c3.
     whenSome p (\<lambda>n c. setPower c i (n \<noteq> 0)) c3)))))))"

definition flagText :: "bool \<Rightarrow> string" where
  "flagText b = (if b then ''1'' else ''0'')"

text \<open>Modelled from the spec: \<open>save(section, chain, index)\<close> writes the value, the flag that tells unset from zero, the brightness and the power state of the module into the keys of the section, whatever its dirty flag (section 4.2).\<close>

definition saveState :: "ini_section \<Rightarrow> max7219 \<Rightarrow> nat \<Rightarrow> error + ini_section" where
  "saveState sec c i =
     (if \<not> i < numDevices c then Inl OutOfRange
      else
        Inr ((case mvalue (modules c ! i) of
                None \<Rightarrow> sec
              | Some v \<Rightarrow> sec(keyValue \<mapsto> to_string v))
             (keyHasValue \<mapsto> flagText (hasValue (modules c ! i)),
              keyBrightness \<mapsto> to_string (brightness (modules c ! i)),
              keyPower \<mapsto> flagText (powered (modules c ! i)))))"


section \<open>The command-line tool (main.cpp)\<close>

text \<open>
  A run is a function of the command line and of the store as the process finds it.
  The run keeps a trace: one event for each call of \<^verbatim>\<open>main\<close> into the store, the chain
  or the synchroniser, in the order of the calls. A run ends by falling off the end of
  \<^verbatim>\<open>main\<close> (\<open>Finished\<close>), by one of the two \<^verbatim>\<open>return -1\<close> after a failed check, by
  \<^verbatim>\<open>return -1\<close> in a \<^verbatim>\<open>catch\<close> block (\<open>Caught\<close>), or by an exception that no block
  catches (\<open>Terminated\<close>). The messages on the error stream are not modelled.
\<close>

datatype event =
    EvConfigLoad
  | EvNumDevices int
  | EvWriteImmediately bool
  | EvLoadState nat
  | EvSetClean
  | EvReset
  | EvSetDirty
  | EvSetNumber nat int
  | EvClear nat
  | EvSetBrightness nat int
  | EvSaveState nat
  | EvMarkDirty
  | EvConfigSave
  | EvSendData

datatype exit =
    Finished
  | InvalidModuleNumber int
  | BrightnessOutOfRange int
  | Caught error
  | Terminated error

record world =
  config :: IniState
  maxdev :: max7219
  trace :: "event list"

definition optVerbose :: string where "optVerbose = ''-v''"
definition cmdReset :: string where "cmdReset = ''reset''"
definition cmdSet :: string where "cmdSet = ''set''"
definition cmdBrightness :: string where "cmdBrightness = ''brightness''"
definition cmdSync :: string where "cmdSync = ''sync''"
definition cmdClear :: string where "cmdClear = ''clear''"

text \<open>The status of the process; an uncaught exception gives none.\<close>

fun exit_status :: "exit \<Rightarrow> int option" where
  "exit_status Finished = Some 0"
| "exit_status (InvalidModuleNumber n) = Some (- 1)"
| "exit_status (BrightnessOutOfRange n) = Some (- 1)"
| "exit_status (Caught e) = Some (- 1)"
| "exit_status (Terminated e) = None"

text \<open>Lines 58 to 62: the option \<^verbatim>\<open>-v\<close> is dropped from the arguments.\<close>

definition cmdline :: "string list \<Rightarrow> string list" where
  "cmdline argv = (if 1 < length argv \<and> argv ! 1 = optVerbose then tl argv else argv)"

text \<open>Lines 77 to 82: the number of modules, when the store gives one.\<close>

definition configureModules :: "library \<Rightarrow> world \<Rightarrow> error \<times> world + world" where
  "configureModules lib w =
     (if has_option (config w) ''interface:spi-0'' ''modules'' then
        (case setNumDevices lib (maxdev w) (atoi (option_at (config w) ''interface:spi-0'' ''modules'')) of
           Inl e \<Rightarrow>
             Inl (e, w\<lparr>trace := trace w @
                        [EvNumDevices (atoi (option_at (config w) ''interface:spi-0'' ''modules''))]\<rparr>)
         | Inr m \<Rightarrow>
             Inr (w\<lparr>maxdev := m, trace := trace w @
                        [EvNumDevices (atoi (option_at (config w) ''interface:spi-0'' ''modules''))]\<rparr>))
      else Inr w)"

text \<open>
  Lines 88 to 94: the loop over the modules. Its counter is a \<^verbatim>\<open>uint8_t\<close>, compared with
  the number of modules after promotion, so it wraps from 255 to 0. The loop does not
  return for a chain of more than 255 modules whose loads all succeed; this is the value
  \<open>None\<close>.
\<close>

partial_function (option) loadLoop :: "8 word \<Rightarrow> world \<Rightarrow> (error \<times> world + world) option" where
  "loadLoop i w =
     (if unat i < numDevices (maxdev w) then
        (if has (config w) (moduleName (uint i)) then
           (case loadState (section_at (config w) (moduleName (uint i))) (maxdev w) (unat i) of
              Inl e \<Rightarrow> Some (Inl (e, w\<lparr>trace := trace w @ [EvLoadState (unat i)]\<rparr>))
            | Inr m \<Rightarrow> loadLoop (i + 1) (w\<lparr>maxdev := m, trace := trace w @ [EvLoadState (unat i)]\<rparr>))
         else loadLoop (i + 1) w)
      else Some (Inr w))"

declare loadLoop.simps [code]

text \<open>Lines 64 to 97: everything before the command is looked at.\<close>

definition startup :: "library \<Rightarrow> IniState \<Rightarrow> (error \<times> world + world) option" where
  "startup lib cfg =
     (case configureModules lib \<lparr>config = load cfg, maxdev = LocalMAX7219 lib, trace = [EvConfigLoad]\<rparr> of
        Inl r \<Rightarrow> Some (Inl r)
      | Inr w1 \<Rightarrow>
          (case loadLoop 0 (w1\<lparr>maxdev := writeImmediately (maxdev w1) False,
                               trace := trace w1 @ [EvWriteImmediately False]\<rparr>) of
             None \<Rightarrow> None
           | Some (Inl r) \<Rightarrow> Some (Inl r)
           | Some (Inr w2) \<Rightarrow>
               Some (Inr (w2\<lparr>maxdev := setClean (maxdev w2), trace := trace w2 @ [EvSetClean]\<rparr>))))"

text \<open>
  Lines 120 to 123, 146 to 149 and 176 to 179, the same three calls in each of the
  three commands: \<^verbatim>\<open>saveState(config[name], *max, num)\<close>, \<^verbatim>\<open>config.markDirty()\<close>,
  \<^verbatim>\<open>config.save()\<close>, inside the \<^verbatim>\<open>try\<close> block.
\<close>

definition saveModule :: "string \<Rightarrow> nat \<Rightarrow> world \<Rightarrow> exit \<times> world + world" where
  "saveModule name num w =
     (case saveState (section_at (config w) name) (maxdev w) num of
        Inl e \<Rightarrow> Inl (Caught e, w\<lparr>trace := trace w @ [EvSaveState num]\<rparr>)
      | Inr sec \<Rightarrow>
          Inr (w\<lparr>config := save (markDirty (put_section (config w) name sec)),
                 trace := trace w @ [EvSaveState num, EvMarkDirty, EvConfigSave]\<rparr>))"

text \<open>Lines 107 to 127: \<^verbatim>\<open>set <module> <number>\<close>.\<close>

definition doSet :: "string list \<Rightarrow> world \<Rightarrow> exit \<times> world + world" where
  "doSet args w =
     (let num = int32 (atoi (args ! 2) - 1); name = moduleName num; val = atoi (args ! 3) in
      if num < 0 \<or> numDevices (maxdev w) \<le> nat num then Inl (InvalidModuleNumber num, w)
      else
        (case setNumber (maxdev w) (nat num) val of
           Inl e \<Rightarrow> Inl (Caught e, w\<lparr>trace := trace w @ [EvSetNumber (nat num) val]\<rparr>)
         | Inr m \<Rightarrow>
             saveModule name (nat num)
               (w\<lparr>maxdev := m, trace := trace w @ [EvSetNumber (nat num) val]\<rparr>)))"

text \<open>Lines 133 to 153: \<^verbatim>\<open>clear <module>\<close>.\<close>

definition doClear :: "string list \<Rightarrow> world \<Rightarrow> exit \<times> world + world" where
  "doClear args w =
     (let num = int32 (atoi (args ! 2) - 1); name = moduleName num in
      if num < 0 \<or> numDevices (maxdev w) \<le> nat num then Inl (InvalidModuleNumber num, w)
      else
        (case clear (maxdev w) (nat num) of
           Inl e \<Rightarrow> Inl (Caught e, w\<lparr>trace := trace w @ [EvClear (nat num)]\<rparr>)
         | Inr m \<Rightarrow>
             saveModule name (nat num)
               (w\<lparr>maxdev := m, trace := trace w @ [EvClear (nat num)]\<rparr>)))"

text \<open>Lines 159 to 183: \<^verbatim>\<open>brightness <module> <number>\<close>.\<close>

definition doBrightness :: "string list \<Rightarrow> world \<Rightarrow> exit \<times> world + world" where
  "doBrightness args w =
     (let num = int32 (atoi (args ! 2) - 1); name = moduleName num; val = atoi (args ! 3) in
      if num < 0 \<or> numDevices (maxdev w) \<le> nat num then Inl (InvalidModuleNumber num, w)
      else if val < 0 \<or> 15 < val then Inl (BrightnessOutOfRange val, w)
      else
        (case setBrightness (maxdev w) (nat num) val of
           Inl e \<Rightarrow> Inl (Caught e, w\<lparr>trace := trace w @ [EvSetBrightness (nat num) val]\<rparr>)
         | Inr m \<Rightarrow>
             saveModule name (nat num)
               (w\<lparr>maxdev := m, trace := trace w @ [EvSetBrightness (nat num) val]\<rparr>)))"

text \<open>
  Lines 100 to 190: the command. \<open>Inl\<close> is a \<^verbatim>\<open>return\<close> from inside the command, \<open>Inr\<close>
  goes on to line 191; a command with the wrong number of arguments, or an unknown one,
  only prints a message and goes on.
\<close>

definition command :: "library \<Rightarrow> string list \<Rightarrow> world \<Rightarrow> exit \<times> world + world" where
  "command lib args w =
     (if 1 < length args then
        (if args ! 1 = cmdReset then
           Inr (w\<lparr>maxdev := reset lib (maxdev w), trace := trace w @ [EvReset]\<rparr>)
         else if args ! 1 = cmdSync then
           Inr (w\<lparr>maxdev := setDirty (maxdev w), trace := trace w @ [EvSetDirty]\<rparr>)
         else if args ! 1 = cmdSet then
           (if length args = 4 then doSet args w else Inr w)
         else if args ! 1 = cmdClear then
           (if length args = 3 then doClear args w else Inr w)
         else if args ! 1 = cmdBrightness then
           (if length args = 4 then doBrightness args w else Inr w)
         else Inr w)
      else Inr w)"

text \<open>\<^verbatim>\<open>main\<close>: the start, the command, and lines 191 to 194.\<close>

definition main :: "library \<Rightarrow> string list \<Rightarrow> IniState \<Rightarrow> (exit \<times> world) option" where
  "main lib argv cfg =
     (case startup lib cfg of
        None \<Rightarrow> None
      | Some (Inl (e, w)) \<Rightarrow> Some (Terminated e, w)
      | Some (Inr w) \<Rightarrow>
          (case command lib (cmdline argv) w of
             Inl r \<Rightarrow> Some r
           | Inr w' \<Rightarrow>
               Some (Finished, w'\<lparr>maxdev := sendData (maxdev w'), trace := trace w' @ [EvSendData]\<rparr>)))"


section \<open>Vocabulary of the statements\<close>

text \<open>
  The command line of a command that takes a module index, read as \<^verbatim>\<open>main\<close> reads it:
  the index is the \<^verbatim>\<open>int\<close> \<^verbatim>\<open>atoi(argv[2]) - 1\<close>, the value or level the \<^verbatim>\<open>int\<close>
  \<^verbatim>\<open>atoi(argv[3])\<close>.
\<close>

definition index_arg :: "string list \<Rightarrow> int" where
  "index_arg args = int32 (atoi (args ! 2) - 1)"

definition level_arg :: "string list \<Rightarrow> int" where
  "level_arg args = atoi (args ! 3)"

definition takes_index :: "string list \<Rightarrow> bool" where
  "takes_index args =
     ((args ! 1 = cmdSet \<and> length args = 4) \<or> (args ! 1 = cmdClear \<and> length args = 3) \<or>
      (args ! 1 = cmdBrightness \<and> length args = 4))"

definition index_valid :: "world \<Rightarrow> string list \<Rightarrow> bool" where
  "index_valid w args = (0 \<le> index_arg args \<and> nat (index_arg args) < numDevices (maxdev w))"

definition level_refused :: "string list \<Rightarrow> bool" where
  "level_refused args = (args ! 1 = cmdBrightness \<and> (level_arg args < 0 \<or> 15 < level_arg args))"

text \<open>The mutator a command calls, and the event of that call.\<close>

definition mutator :: "string list \<Rightarrow> max7219 \<Rightarrow> error + max7219" where
  "mutator args c =
     (if args ! 1 = cmdSet then setNumber c (nat (index_arg args)) (level_arg args)
      else if args ! 1 = cmdClear then clear c (nat (index_arg args))
      else setBrightness c (nat (index_arg args)) (level_arg args))"

definition mutation_event :: "string list \<Rightarrow> event" where
  "mutation_event args =
     (if args ! 1 = cmdSet then EvSetNumber (nat (index_arg args)) (level_arg args)
      else if args ! 1 = cmdClear then EvClear (nat (index_arg args))
      else EvSetBrightness (nat (index_arg args)) (level_arg args))"

text \<open>The events of the start before the loop, and the modules the loop loads.\<close>

definition setup_trace :: "IniState \<Rightarrow> event list" where
  "setup_trace cfg =
     EvConfigLoad #
     (if has_option (load cfg) ''interface:spi-0'' ''modules''
      then [EvNumDevices (atoi (option_at (load cfg) ''interface:spi-0'' ''modules''))] else []) @
     [EvWriteImmediately False]"

definition loaded :: "IniState \<Rightarrow> nat \<Rightarrow> nat list" where
  "loaded cfg n = filter (\<lambda>j. has (load cfg) (moduleName (int j))) [0..<n]"

text \<open>Kinds of events.\<close>

fun is_mutation :: "event \<Rightarrow> bool" where
  "is_mutation (EvSetNumber i v) = True"
| "is_mutation (EvClear i) = True"
| "is_mutation (EvSetBrightness i v) = True"
| "is_mutation ev = False"

fun is_startup_event :: "event \<Rightarrow> bool" where
  "is_startup_event EvConfigLoad = True"
| "is_startup_event (EvNumDevices n) = True"
| "is_startup_event (EvWriteImmediately b) = True"
| "is_startup_event (EvLoadState i) = True"
| "is_startup_event ev = False"

fun is_command_event :: "event \<Rightarrow> bool" where
  "is_command_event EvConfigLoad = False"
| "is_command_event (EvNumDevices n) = False"
| "is_command_event (EvWriteImmediately b) = False"
| "is_command_event (EvLoadState i) = False"
| "is_command_event EvSetClean = False"
| "is_command_event ev = True"

text \<open>
  The steps of a run that the orders below speak of: loading the store, a mutation,
  the flush, and the save of the store. \<open>spec_order\<close> is the order load, mutation, flush,
  save; \<open>code_order\<close> is the order load, mutation, save, flush.
\<close>

definition steps :: "event list \<Rightarrow> event list" where
  "steps t = filter (\<lambda>ev. ev = EvConfigLoad \<or> is_mutation ev \<or> ev = EvSendData \<or> ev = EvConfigSave) t"

definition spec_order :: "event list \<Rightarrow> bool" where
  "spec_order t =
     (case steps t of
        [l, m, f, sv] \<Rightarrow> l = EvConfigLoad \<and> is_mutation m \<and> f = EvSendData \<and> sv = EvConfigSave
      | _ \<Rightarrow> False)"

definition code_order :: "event list \<Rightarrow> bool" where
  "code_order t =
     (case steps t of
        [l, m, sv, f] \<Rightarrow> l = EvConfigLoad \<and> is_mutation m \<and> sv = EvConfigSave \<and> f = EvSendData
      | _ \<Rightarrow> False)"

definition run_trace :: "library \<Rightarrow> string list \<Rightarrow> IniState \<Rightarrow> event list option" where
  "run_trace lib argv cfg = map_option (\<lambda>r. trace (snd r)) (main lib argv cfg)"

text \<open>What a module holds apart from its dirty flag.\<close>

definition content :: "module \<Rightarrow> int option \<times> bool \<times> int \<times> bool" where
  "content m = (mvalue m, hasValue m, brightness m, powered m)"

text \<open>A mutator or a load of module \<open>i\<close> leaves the rest of the chain as it was.\<close>

definition touches_only :: "nat \<Rightarrow> max7219 \<Rightarrow> max7219 \<Rightarrow> bool" where
  "touches_only i c c' =
     (numDevices c' = numDevices c \<and> immediateWrite c' = immediateWrite c \<and>
      (\<not> immediateWrite c \<longrightarrow> bus c' = bus c) \<and>
      (\<forall>j. j \<noteq> i \<longrightarrow> modules c' ! j = modules c ! j))"

text \<open>What holds when the loop, entered at counter \<open>i\<close> in \<open>w\<close>, is left in \<open>w'\<close>.\<close>

definition loop_post :: "8 word \<Rightarrow> world \<Rightarrow> world \<Rightarrow> bool" where
  "loop_post i w w' =
     (numDevices (maxdev w) \<le> 255 \<and> config w' = config w \<and>
      numDevices (maxdev w') = numDevices (maxdev w) \<and>
      immediateWrite (maxdev w') = immediateWrite (maxdev w) \<and>
      (\<not> immediateWrite (maxdev w) \<longrightarrow> bus (maxdev w') = bus (maxdev w)) \<and>
      trace w' = trace w @ map EvLoadState
         (filter (\<lambda>j. has (config w) (moduleName (int j))) [unat i..<numDevices (maxdev w)]) \<and>
      (\<forall>j. \<not> has (config w) (moduleName (int j)) \<longrightarrow>
           modules (maxdev w') ! j = modules (maxdev w) ! j))"

text \<open>A chain that has sent nothing and whose modules are all in the default state.\<close>

definition fresh :: "library \<Rightarrow> max7219 \<Rightarrow> bool" where
  "fresh lib c = (bus c = [] \<and> (\<forall>m \<in> set (modules c). m = newModule lib))"

text \<open>
  Parameters and stores to run the tool on: a new chain has two modules; the file of
  \<open>emptyStore\<close> is empty; the file of \<open>demoStore\<close> asks for three modules and has a
  section for the second one only.
\<close>

definition demoLibrary :: library where
  "demoLibrary =
     \<lparr>defaultBrightness = 7, defaultDevices = 2, defaultImmediate = True, zeroDevices = False,
      resetModule = (\<lambda>m. m\<lparr>mvalue := None, hasValue := False, dirty := True\<rparr>)\<rparr>"

definition emptyStore :: IniState where
  "emptyStore = \<lparr>sections = Map.empty, storeDirty = False, stored = Map.empty\<rparr>"

definition demoStore :: IniState where
  "demoStore =
     \<lparr>sections = Map.empty, storeDirty = False,
      stored = [''interface:spi-0'' \<mapsto> [''modules'' \<mapsto> ''3''],
                ''display:2'' \<mapsto> [''value'' \<mapsto> ''42'', ''brightness'' \<mapsto> ''3'']]\<rparr>"


section \<open>Decimal numerals read back\<close>

lemma isdigit_digit_char: "d < 10 \<Longrightarrow> isdigit (digit_char d)"
  by (simp add: isdigit_def digit_char_def)

lemma digit_val_digit_char: "d < 10 \<Longrightarrow> digit_val (digit_char d) = int d"
  by (simp add: digit_val_def digit_char_def)

lemma atoi_digits_snoc:
  "\<forall>c \<in> set xs. isdigit c \<Longrightarrow> isdigit d \<Longrightarrow>
   atoi_digits acc (xs @ [d]) = atoi_digits acc xs * 10 + digit_val d"
  by (induction xs arbitrary: acc) simp_all

lemma digits_all_isdigit: "\<forall>c \<in> set (digits n). isdigit c"
proof (induction n rule: digits.induct)
  case (1 n)
  show ?case
  proof (cases "n < 10")
    case True
    then show ?thesis by (simp add: digits.simps [of n] isdigit_digit_char)
  next
    case False
    with "1" show ?thesis by (simp add: digits.simps [of n] isdigit_digit_char)
  qed
qed

lemma atoi_digits_digits: "atoi_digits 0 (digits n) = int n"
proof (induction n rule: digits.induct)
  case (1 n)
  show ?case
  proof (cases "n < 10")
    case True
    then show ?thesis
      by (simp add: digits.simps [of n] isdigit_digit_char digit_val_digit_char)
  next
    case False
    have "atoi_digits 0 (digits (n div 10) @ [digit_char (n mod 10)]) =
          atoi_digits 0 (digits (n div 10)) * 10 + digit_val (digit_char (n mod 10))"
      by (rule atoi_digits_snoc) (simp_all add: digits_all_isdigit isdigit_digit_char)
    moreover have "int (n div 10) * 10 + int (n mod 10) = int n"
      by presburger
    ultimately show ?thesis
      using False "1" by (simp add: digits.simps [of n] digit_val_digit_char)
  qed
qed

lemma digits_not_Nil: "digits n \<noteq> []"
  by (subst digits.simps) simp

lemma hd_digits_isdigit: "isdigit (hd (digits n))"
  using digits_all_isdigit [of n] digits_not_Nil [of n] by (cases "digits n") simp_all

lemma isdigit_not_special:
  "isdigit c \<Longrightarrow> \<not> isspace c \<and> c \<noteq> CHR ''-'' \<and> c \<noteq> CHR ''+''"
  by (auto simp: isdigit_def isspace_def)

lemma decimal_digits: "decimal (digits n) = int n"
proof -
  obtain c cs where split: "digits n = c # cs"
    using digits_not_Nil [of n] by (cases "digits n") auto
  with hd_digits_isdigit [of n] have "isdigit c" by simp
  then have "\<not> isspace c" "c \<noteq> CHR ''-''" "c \<noteq> CHR ''+''"
    using isdigit_not_special by blast+
  then have "decimal (c # cs) = atoi_digits 0 (c # cs)"
    by (simp add: decimal_def del: atoi_digits.simps)
  then have "decimal (digits n) = atoi_digits 0 (digits n)"
    by (simp only: split)
  then show ?thesis by (simp only: atoi_digits_digits)
qed

lemma decimal_to_string: "decimal (to_string n) = n"
proof (cases "n < 0")
  case True
  have "\<not> isspace (CHR ''-'')" by (simp add: isspace_def)
  then have "decimal (CHR ''-'' # digits (nat (- n))) = - atoi_digits 0 (digits (nat (- n)))"
    by (simp add: decimal_def)
  with True show ?thesis by (simp add: to_string_def atoi_digits_digits)
next
  case False
  then show ?thesis by (simp add: to_string_def decimal_digits)
qed

lemma int32_id: "- 2147483648 \<le> x \<Longrightarrow> x \<le> 2147483647 \<Longrightarrow> int32 x = x"
  by (simp add: int32_def)

lemma atoi_to_string:
  "- 2147483648 \<le> n \<Longrightarrow> n \<le> 2147483647 \<Longrightarrow> atoi (to_string n) = n"
  by (simp add: atoi_def strtol_def decimal_to_string int32_id)


section \<open>The chain and the synchroniser\<close>

lemma touches_only_refl: "touches_only i c c"
  by (simp add: touches_only_def)

lemma touches_only_trans:
  "touches_only i a b \<Longrightarrow> touches_only i b c \<Longrightarrow> touches_only i a c"
  by (simp add: touches_only_def)

lemma touches_only_mutate: "touches_only i c (mutate c i m changed)"
  by (simp add: touches_only_def mutate_def numDevices_def)

lemma setNumber_touches: "setNumber c i v = Inr c' \<Longrightarrow> touches_only i c c'"
  by (auto simp: setNumber_def touches_only_mutate split: if_splits)

lemma clear_touches: "clear c i = Inr c' \<Longrightarrow> touches_only i c c'"
  by (auto simp: clear_def touches_only_mutate split: if_splits)

lemma setBrightness_touches: "setBrightness c i v = Inr c' \<Longrightarrow> touches_only i c c'"
  by (auto simp: setBrightness_def touches_only_mutate split: if_splits)

lemma setPower_touches: "setPower c i v = Inr c' \<Longrightarrow> touches_only i c c'"
  by (auto simp: setPower_def touches_only_mutate split: if_splits)

lemma andThen_InrE:
  assumes "andThen r f = Inr y"
  obtains x where "r = Inr x" and "f x = Inr y"
  using assms by (cases r) (simp_all add: andThen_def)

lemma whenSome_touches:
  assumes "whenSome x f c = Inr c'" and "\<And>v a b. f v a = Inr b \<Longrightarrow> touches_only i a b"
  shows "touches_only i c c'"
  using assms by (cases x) (auto simp: whenSome_def touches_only_refl)

lemma loadState_touches:
  assumes "loadState sec c i = Inr c'"
  shows "touches_only i c c'"
  using assms unfolding loadState_def
proof (elim andThen_InrE)
  fix v h b p :: "int option" and c1 c2 c3
  assume s1: "whenSome v (\<lambda>n c. setNumber c i n) c = Inr c1"
    and s2: "whenSome h (\<lambda>n c. if n = 0 then clear c i else Inr c) c1 = Inr c2"
    and s3: "whenSome b (\<lambda>n c. setBrightness c i n) c2 = Inr c3"
    and s4: "whenSome p (\<lambda>n c. setPower c i (n \<noteq> 0)) c3 = Inr c'"
  have "touches_only i c c1"
    using s1 by (rule whenSome_touches) (rule setNumber_touches)
  moreover have "touches_only i c1 c2"
    using s2 by (rule whenSome_touches) (auto split: if_splits intro: clear_touches touches_only_refl)
  moreover have "touches_only i c2 c3"
    using s3 by (rule whenSome_touches) (rule setBrightness_touches)
  moreover have "touches_only i c3 c'"
    using s4 by (rule whenSome_touches) (rule setPower_touches)
  ultimately show ?thesis
    by (blast intro: touches_only_trans)
qed

lemma setClean_fields:
  "numDevices (setClean c) = numDevices c" "immediateWrite (setClean c) = immediateWrite c"
  "bus (setClean c) = bus c"
  "j < numDevices c \<Longrightarrow> modules (setClean c) ! j = (modules c ! j)\<lparr>dirty := False\<rparr>"
  by (simp_all add: setClean_def numDevices_def)

lemma writeImmediately_fields:
  "numDevices (writeImmediately c b) = numDevices c" "immediateWrite (writeImmediately c b) = b"
  "bus (writeImmediately c b) = bus c" "modules (writeImmediately c b) = modules c"
  by (simp_all add: writeImmediately_def numDevices_def)

lemma reset_fields:
  "numDevices (reset lib c) = numDevices c" "immediateWrite (reset lib c) = immediateWrite c"
  "bus (reset lib c) = bus c"
  by (simp_all add: reset_def numDevices_def)

lemma all_dirty_map: "list_all dirty ms \<Longrightarrow> map dirty ms = replicate (length ms) True"
  by (induction ms) simp_all

lemma setDirty_fields:
  "numDevices (setDirty c) = numDevices c" "immediateWrite (setDirty c) = immediateWrite c"
  "bus (setDirty c) = bus c"
  "list_all dirty (modules (setDirty c))"
  "map content (modules (setDirty c)) = map content (modules c)"
  by (simp_all add: setDirty_def numDevices_def list_all_iff content_def)

lemma sendData_batched:
  assumes "\<not> immediateWrite c"
  shows "bus (sendData c) = bus c @ [map render (modules c)]"
    and "modules (sendData c) = map (\<lambda>m. m\<lparr>dirty := False\<rparr>) (modules c)"
    and "map render (modules (sendData c)) = map render (modules c)"
    and "map content (modules (sendData c)) = map content (modules c)"
    and "numDevices (sendData c) = numDevices c"
  using assms by (simp_all add: sendData_def render_def content_def numDevices_def)

lemma newModule_clean: "(newModule lib)\<lparr>dirty := False\<rparr> = newModule lib"
  by (simp add: newModule_def)

lemma fresh_LocalMAX7219: "fresh lib (LocalMAX7219 lib)"
  by (simp add: fresh_def LocalMAX7219_def)

lemma fresh_setNumDevices:
  assumes "fresh lib c" and "setNumDevices lib c count = Inr c'"
  shows "fresh lib c'"
proof -
  from assms(2) have c': "c' = c\<lparr>modules := take (nat count) (modules c) @
      replicate (nat count - numDevices c) (newModule lib)\<rparr>"
    by (simp add: setNumDevices_def split: if_splits)
  have "set (take (nat count) (modules c)) \<subseteq> set (modules c)"
    by (rule set_take_subset)
  with assms(1) show ?thesis
    by (auto simp: c' fresh_def)
qed

lemma fresh_nth: "fresh lib c \<Longrightarrow> j < numDevices c \<Longrightarrow> modules c ! j = newModule lib"
  by (simp add: fresh_def numDevices_def)

lemma keys_distinct:
  "keyValue \<noteq> keyHasValue" "keyValue \<noteq> keyBrightness" "keyValue \<noteq> keyPower"
  "keyHasValue \<noteq> keyBrightness" "keyHasValue \<noteq> keyPower" "keyBrightness \<noteq> keyPower"
  by (simp_all add: keyValue_def keyHasValue_def keyBrightness_def keyPower_def)

lemma saveState_valid:
  "i < numDevices c \<Longrightarrow> \<exists>sec'. saveState sec c i = Inr sec'"
  by (simp add: saveState_def)

lemma saveState_keys:
  assumes "saveState sec0 c i = Inr sec"
  shows "sec keyHasValue = Some (flagText (hasValue (modules c ! i)))"
    and "sec keyBrightness = Some (to_string (brightness (modules c ! i)))"
    and "sec keyPower = Some (flagText (powered (modules c ! i)))"
    and "mvalue (modules c ! i) = Some v \<Longrightarrow> sec keyValue = Some (to_string v)"
  using assms keys_distinct
  by (auto simp: saveState_def split: if_splits option.splits)

lemma save_marked:
  "save (markDirty cfg) = cfg\<lparr>stored := sections cfg, storeDirty := False\<rparr>"
  by (simp add: save_def markDirty_def)


section \<open>The loop over the modules\<close>

lemma unat_succ_byte: "unat (i :: 8 word) < 255 \<Longrightarrow> unat (i + 1) = unat i + 1"
  by (simp add: unat_word_ariths)

lemma unat_byte_le: "unat (i :: 8 word) \<le> 255"
  using unsigned_less [of i, where ?'a = nat] by simp

lemma byte_of_nat:
  "j \<le> 255 \<Longrightarrow> unat (of_nat j :: 8 word) = j \<and> uint (of_nat j :: 8 word) = int j"
  by (simp add: unat_of_nat uint_nat)

lemma loadLoop_skip:
  assumes "unat i < numDevices (maxdev w)" and "\<not> has (config w) (moduleName (uint i))"
  shows "loadLoop i w = loadLoop (i + 1) w"
  using assms by (subst loadLoop.simps) simp

lemma loop_post_done:
  "\<not> unat i < numDevices (maxdev w) \<Longrightarrow> loop_post i w w"
  using unat_byte_le [of i] by (simp add: loop_post_def)

lemma loop_post_skip:
  assumes "unat i < numDevices (maxdev w)"
    and "\<not> has (config w) (moduleName (uint i))"
    and "loop_post (i + 1) w w'"
  shows "loop_post i w w'"
proof -
  from assms(3) have n: "numDevices (maxdev w) \<le> 255"
    by (simp add: loop_post_def)
  with assms(1) have "unat (i + 1) = unat i + 1"
    by (simp add: unat_succ_byte)
  moreover have "[unat i..<numDevices (maxdev w)] = unat i # [unat i + 1..<numDevices (maxdev w)]"
    using assms(1) by (simp add: upt_conv_Cons)
  moreover have "\<not> has (config w) (moduleName (int (unat i)))"
    using assms(2) by simp
  ultimately show ?thesis
    using assms(3) by (simp add: loop_post_def)
qed

lemma loop_post_load:
  assumes "unat i < numDevices (maxdev w)"
    and "has (config w) (moduleName (uint i))"
    and "touches_only (unat i) (maxdev w) m"
    and "loop_post (i + 1) (w\<lparr>maxdev := m, trace := trace w @ [EvLoadState (unat i)]\<rparr>) w'"
  shows "loop_post i w w'"
proof -
  from assms(3) have same: "numDevices m = numDevices (maxdev w)"
    "immediateWrite m = immediateWrite (maxdev w)"
    "\<not> immediateWrite (maxdev w) \<longrightarrow> bus m = bus (maxdev w)"
    "\<And>j. j \<noteq> unat i \<Longrightarrow> modules m ! j = modules (maxdev w) ! j"
    by (simp_all add: touches_only_def)
  from assms(4) same(1) have n: "numDevices (maxdev w) \<le> 255"
    by (simp add: loop_post_def)
  with assms(1) have step: "unat (i + 1) = unat i + 1"
    by (simp add: unat_succ_byte)
  have upt: "[unat i..<numDevices (maxdev w)] = unat i # [unat i + 1..<numDevices (maxdev w)]"
    using assms(1) by (simp add: upt_conv_Cons)
  have here: "has (config w) (moduleName (int (unat i)))"
    using assms(2) by simp
  have other: "\<And>j. \<not> has (config w) (moduleName (int j)) \<Longrightarrow> j \<noteq> unat i"
    using here by auto
  show ?thesis
    using assms(4) same n step here other
    by (simp add: loop_post_def upt)
qed

lemma loadLoop_post:
  assumes "loadLoop i w = Some r"
  shows "\<forall>w'. r = Inr w' \<longrightarrow> loop_post i w w'"
proof (rule loadLoop.raw_induct
    [where P = "\<lambda>i w r. \<forall>w'. r = Inr w' \<longrightarrow> loop_post i w w'", OF _ assms], goal_cases)
  case (1 f i w r)
  note IH = "1"(1) and body = "1"(2)
  show ?case
  proof (cases "unat i < numDevices (maxdev w)")
    case False
    with body show ?thesis
      by (auto simp: loop_post_done)
  next
    case True
    show ?thesis
    proof (cases "has (config w) (moduleName (uint i))")
      case False
      with True body have "f (i + 1) w = Some r" by simp
      then have "\<forall>w'. r = Inr w' \<longrightarrow> loop_post (i + 1) w w'"
        by (rule IH)
      with True False show ?thesis
        by (blast intro: loop_post_skip)
    next
      case has: True
      show ?thesis
      proof (cases "loadState (section_at (config w) (moduleName (uint i))) (maxdev w) (unat i)")
        case (Inl e)
        with True has body show ?thesis by auto
      next
        case (Inr m)
        with True has body have
          "f (i + 1) (w\<lparr>maxdev := m, trace := trace w @ [EvLoadState (unat i)]\<rparr>) = Some r"
          by simp
        then have "\<forall>w'. r = Inr w' \<longrightarrow>
            loop_post (i + 1) (w\<lparr>maxdev := m, trace := trace w @ [EvLoadState (unat i)]\<rparr>) w'"
          by (rule IH)
        moreover have "touches_only (unat i) (maxdev w) m"
          using Inr by (rule loadState_touches)
        ultimately show ?thesis
          using True has by (blast intro: loop_post_load)
      qed
    qed
  qed
qed


lemma loadLoop_returns:
  assumes "numDevices (maxdev w) \<le> 255"
  shows "\<exists>r. loadLoop i w = Some r"
  using assms
proof (induction "numDevices (maxdev w) - unat i" arbitrary: i w)
  case 0
  then have "\<not> unat i < numDevices (maxdev w)" by simp
  then show ?case by (subst loadLoop.simps) simp
next
  case (Suc k)
  then have lt: "unat i < numDevices (maxdev w)" by simp
  with Suc.prems have step: "unat (i + 1) = unat i + 1"
    by (simp add: unat_succ_byte)
  show ?case
  proof (cases "has (config w) (moduleName (uint i))")
    case False
    have "\<exists>r. loadLoop (i + 1) w = Some r"
      using Suc.hyps(2) Suc.prems step by (intro Suc.hyps(1)) simp_all
    with lt False show ?thesis by (subst loadLoop.simps) simp
  next
    case True
    show ?thesis
    proof (cases "loadState (section_at (config w) (moduleName (uint i))) (maxdev w) (unat i)")
      case (Inl e)
      with lt True show ?thesis by (subst loadLoop.simps) simp
    next
      case (Inr m)
      then have "numDevices m = numDevices (maxdev w)"
        using loadState_touches by (fastforce simp: touches_only_def)
      then have "\<exists>r. loadLoop (i + 1) (w\<lparr>maxdev := m, trace := trace w @ [EvLoadState (unat i)]\<rparr>) = Some r"
        using Suc.hyps(2) Suc.prems step by (intro Suc.hyps(1)) simp_all
      with lt True Inr show ?thesis by (subst loadLoop.simps) simp
    qed
  qed
qed

text \<open>
  The lemma above: the loop returns for every chain of at most 255 modules. For a longer
  chain it is never left by its condition: it ends with the error of a load, or it does
  not return.
\<close>

lemma loadLoop_long_chain:
  "255 < numDevices (maxdev w) \<Longrightarrow> loadLoop i w \<noteq> Some (Inr w')"
  using loadLoop_post [of i w "Inr w'"] by (auto simp: loop_post_def)


section \<open>The start\<close>

lemma configureModules_Inr:
  assumes "configureModules lib w = Inr w1" and "fresh lib (maxdev w)"
  shows "config w1 = config w \<and> fresh lib (maxdev w1) \<and>
         trace w1 = trace w @
           (if has_option (config w) ''interface:spi-0'' ''modules''
            then [EvNumDevices (atoi (option_at (config w) ''interface:spi-0'' ''modules''))] else [])"
  using assms
  by (auto simp: configureModules_def split: if_splits sum.splits dest: fresh_setNumDevices)

lemma startup_InrE:
  assumes "startup lib cfg = Some (Inr s)"
  obtains w1 w2 where
    "configureModules lib \<lparr>config = load cfg, maxdev = LocalMAX7219 lib, trace = [EvConfigLoad]\<rparr> = Inr w1"
    "loadLoop 0 (w1\<lparr>maxdev := writeImmediately (maxdev w1) False,
                    trace := trace w1 @ [EvWriteImmediately False]\<rparr>) = Some (Inr w2)"
    "s = w2\<lparr>maxdev := setClean (maxdev w2), trace := trace w2 @ [EvSetClean]\<rparr>"
  using assms
  by (auto simp: startup_def split: sum.splits option.splits)

lemma startup_facts:
  assumes "startup lib cfg = Some (Inr s)"
  shows "config s = load cfg"
    and "immediateWrite (maxdev s) = False"
    and "bus (maxdev s) = []"
    and "numDevices (maxdev s) \<le> 255"
    and "\<forall>j < numDevices (maxdev s). \<not> dirty (modules (maxdev s) ! j)"
    and "trace s = setup_trace cfg @ map EvLoadState (loaded cfg (numDevices (maxdev s))) @ [EvSetClean]"
    and "\<forall>j < numDevices (maxdev s). \<not> has (load cfg) (moduleName (int j)) \<longrightarrow>
           modules (maxdev s) ! j = newModule lib"
proof -
  from assms obtain w1 w2 where
    conf: "configureModules lib \<lparr>config = load cfg, maxdev = LocalMAX7219 lib, trace = [EvConfigLoad]\<rparr> = Inr w1"
    and loop: "loadLoop 0 (w1\<lparr>maxdev := writeImmediately (maxdev w1) False,
                    trace := trace w1 @ [EvWriteImmediately False]\<rparr>) = Some (Inr w2)"
    and s: "s = w2\<lparr>maxdev := setClean (maxdev w2), trace := trace w2 @ [EvSetClean]\<rparr>"
    by (rule startup_InrE)
  from conf have w1: "config w1 = load cfg" "fresh lib (maxdev w1)"
    "trace w1 = EvConfigLoad #
        (if has_option (load cfg) ''interface:spi-0'' ''modules''
         then [EvNumDevices (atoi (option_at (load cfg) ''interface:spi-0'' ''modules''))] else [])"
    using configureModules_Inr [OF conf] by (simp_all add: fresh_LocalMAX7219)
  from loop have post: "loop_post 0 (w1\<lparr>maxdev := writeImmediately (maxdev w1) False,
                    trace := trace w1 @ [EvWriteImmediately False]\<rparr>) w2"
    using loadLoop_post by blast
  have n: "numDevices (maxdev w2) = numDevices (maxdev w1)"
    using post by (simp add: loop_post_def writeImmediately_fields)
  then have ns: "numDevices (maxdev s) = numDevices (maxdev w1)"
    by (simp add: s setClean_fields)
  show "config s = load cfg"
    using post w1 by (simp add: s loop_post_def)
  show "immediateWrite (maxdev s) = False"
    using post by (simp add: s loop_post_def setClean_fields writeImmediately_fields)
  show "bus (maxdev s) = []"
    using post w1 by (simp add: s loop_post_def setClean_fields writeImmediately_fields fresh_def)
  show "numDevices (maxdev s) \<le> 255"
    using post by (simp add: ns loop_post_def writeImmediately_fields)
  show "\<forall>j < numDevices (maxdev s). \<not> dirty (modules (maxdev s) ! j)"
    by (simp add: s setClean_fields)
  have "trace w2 = setup_trace cfg @ map EvLoadState (loaded cfg (numDevices (maxdev w1)))"
    using post w1
    by (simp add: loop_post_def writeImmediately_fields setup_trace_def loaded_def)
  then show "trace s = setup_trace cfg @ map EvLoadState (loaded cfg (numDevices (maxdev s))) @ [EvSetClean]"
    by (simp add: ns) (simp add: s)
  show "\<forall>j < numDevices (maxdev s). \<not> has (load cfg) (moduleName (int j)) \<longrightarrow>
           modules (maxdev s) ! j = newModule lib"
  proof (intro allI impI)
    fix j
    assume j: "j < numDevices (maxdev s)" and none: "\<not> has (load cfg) (moduleName (int j))"
    from j have j2: "j < numDevices (maxdev w2)" by (simp add: s setClean_fields)
    have "modules (maxdev w2) ! j = modules (maxdev w1) ! j"
      using post none w1 by (simp add: loop_post_def writeImmediately_fields)
    also have "\<dots> = newModule lib"
      using w1(2) j2 n by (simp add: fresh_nth)
    finally show "modules (maxdev s) ! j = newModule lib"
      using j2 by (simp add: s setClean_fields newModule_clean)
  qed
qed

lemma startup_trace_members:
  assumes "startup lib cfg = Some (Inr s)"
  shows "list_all (\<lambda>ev. is_startup_event ev \<or> ev = EvSetClean) (trace s)"
  using startup_facts(6) [OF assms]
  by (auto simp: list_all_iff setup_trace_def)

lemma startup_stored:
  assumes "startup lib cfg = Some (Inr s)"
  shows "stored (config s) = stored cfg"
  using startup_facts(1) [OF assms] by (simp add: load_def)


text \<open>The start returns whenever the chain it configures has at most 255 modules.\<close>

lemma startup_returns:
  assumes "defaultDevices lib \<le> 255"
    and "has_option (load cfg) ''interface:spi-0'' ''modules'' \<longrightarrow>
           atoi (option_at (load cfg) ''interface:spi-0'' ''modules'') \<le> 255"
  shows "\<exists>r. startup lib cfg = Some r"
proof (cases "configureModules lib \<lparr>config = load cfg, maxdev = LocalMAX7219 lib, trace = [EvConfigLoad]\<rparr>")
  case (Inl r)
  then show ?thesis by (simp add: startup_def)
next
  case (Inr w1)
  with assms have "numDevices (maxdev w1) \<le> 255"
    by (auto simp: configureModules_def setNumDevices_def LocalMAX7219_def numDevices_def
        split: if_splits sum.splits)
  then have "numDevices (maxdev (w1\<lparr>maxdev := writeImmediately (maxdev w1) False,
                    trace := trace w1 @ [EvWriteImmediately False]\<rparr>)) \<le> 255"
    by (simp add: writeImmediately_fields)
  then obtain r where "loadLoop 0 (w1\<lparr>maxdev := writeImmediately (maxdev w1) False,
                    trace := trace w1 @ [EvWriteImmediately False]\<rparr>) = Some r"
    using loadLoop_returns by blast
  with Inr show ?thesis
    by (cases r) (simp_all add: startup_def)
qed

lemma steps_append: "steps (xs @ ys) = steps xs @ steps ys"
  by (simp add: steps_def)

lemma steps_loads: "steps (map EvLoadState ls) = []"
  by (induction ls) (simp_all add: steps_def)

lemma steps_setup: "steps (setup_trace cfg) = [EvConfigLoad]"
  by (simp add: steps_def setup_trace_def)

lemma steps_startup:
  assumes "startup lib cfg = Some (Inr s)"
  shows "steps (trace s) = [EvConfigLoad]"
  by (simp add: startup_facts(6) [OF assms] steps_append steps_setup steps_loads) (simp add: steps_def)


section \<open>The commands\<close>

lemma commands_distinct:
  "cmdSet \<noteq> cmdReset" "cmdSet \<noteq> cmdSync" "cmdClear \<noteq> cmdReset" "cmdClear \<noteq> cmdSync"
  "cmdClear \<noteq> cmdSet" "cmdBrightness \<noteq> cmdReset" "cmdBrightness \<noteq> cmdSync"
  "cmdBrightness \<noteq> cmdSet" "cmdBrightness \<noteq> cmdClear" "cmdSync \<noteq> cmdReset"
  by (simp_all add: cmdSet_def cmdReset_def cmdSync_def cmdClear_def cmdBrightness_def)

lemma mutator_valid:
  assumes "takes_index args" and "nat (index_arg args) < numDevices c" and "\<not> level_refused args"
  shows "\<exists>m. mutator args c = Inr m"
  using assms
  by (auto simp: takes_index_def mutator_def level_refused_def setNumber_def clear_def
      setBrightness_def commands_distinct)

lemma mutator_touches:
  "mutator args c = Inr m \<Longrightarrow> touches_only (nat (index_arg args)) c m"
  by (auto simp: mutator_def split: if_splits
      intro: setNumber_touches clear_touches setBrightness_touches)

lemma is_mutation_event: "is_mutation (mutation_event args)"
  by (simp add: mutation_event_def)

lemma index_valid_iff:
  "index_valid w args \<longleftrightarrow> 0 \<le> index_arg args \<and> index_arg args < int (numDevices (maxdev w))"
  by (auto simp: index_valid_def)

lemma command_refuses_index:
  assumes "takes_index args" and "\<not> index_valid w args"
  shows "command lib args w = Inl (InvalidModuleNumber (index_arg args), w)"
  using assms
  by (auto simp: takes_index_def index_valid_def index_arg_def command_def doSet_def doClear_def
      doBrightness_def commands_distinct Let_def)

lemma command_refuses_level:
  assumes "takes_index args" and "index_valid w args" and "level_refused args"
  shows "command lib args w = Inl (BrightnessOutOfRange (level_arg args), w)"
  using assms
  by (auto simp: takes_index_def index_valid_def index_arg_def level_arg_def level_refused_def
      command_def doBrightness_def commands_distinct Let_def)

lemma command_mutates:
  assumes "takes_index args" and "index_valid w args" and "\<not> level_refused args"
    and "mutator args (maxdev w) = Inr m"
    and "saveState (section_at (config w) (moduleName (index_arg args))) m (nat (index_arg args)) = Inr sec"
  shows "command lib args w =
           Inr (w\<lparr>config := save (markDirty (put_section (config w) (moduleName (index_arg args)) sec)),
                  maxdev := m,
                  trace := trace w @ [mutation_event args, EvSaveState (nat (index_arg args)),
                                      EvMarkDirty, EvConfigSave]\<rparr>)"
  using assms
  by (auto simp: takes_index_def index_valid_def index_arg_def level_arg_def level_refused_def
      mutator_def mutation_event_def command_def doSet_def doClear_def doBrightness_def
      saveModule_def commands_distinct Let_def)

lemma command_accepts:
  assumes "takes_index args" and "index_valid w args" and "\<not> level_refused args"
  obtains m sec where
    "mutator args (maxdev w) = Inr m"
    "touches_only (nat (index_arg args)) (maxdev w) m"
    "saveState (section_at (config w) (moduleName (index_arg args))) m (nat (index_arg args)) = Inr sec"
    "command lib args w =
       Inr (w\<lparr>config := save (markDirty (put_section (config w) (moduleName (index_arg args)) sec)),
              maxdev := m,
              trace := trace w @ [mutation_event args, EvSaveState (nat (index_arg args)),
                                  EvMarkDirty, EvConfigSave]\<rparr>)"
proof -
  from assms(2) have valid: "nat (index_arg args) < numDevices (maxdev w)"
    by (simp add: index_valid_def)
  with assms(1,3) obtain m where m: "mutator args (maxdev w) = Inr m"
    using mutator_valid by blast
  then have touch: "touches_only (nat (index_arg args)) (maxdev w) m"
    by (rule mutator_touches)
  with valid have "nat (index_arg args) < numDevices m"
    by (simp add: touches_only_def)
  then obtain sec where sec:
    "saveState (section_at (config w) (moduleName (index_arg args))) m (nat (index_arg args)) = Inr sec"
    using saveState_valid by blast
  show thesis
    using m touch sec command_mutates [OF assms m sec] by (rule that)
qed

lemma command_other:
  assumes "\<not> takes_index args"
  shows "command lib args w =
     (if 1 < length args \<and> args ! 1 = cmdReset then
        Inr (w\<lparr>maxdev := reset lib (maxdev w), trace := trace w @ [EvReset]\<rparr>)
      else if 1 < length args \<and> args ! 1 = cmdSync then
        Inr (w\<lparr>maxdev := setDirty (maxdev w), trace := trace w @ [EvSetDirty]\<rparr>)
      else Inr w)"
  using assms by (auto simp: takes_index_def command_def)

text \<open>What a command that passes its checks leaves for line 191.\<close>

lemma command_passes:
  assumes "\<not> (takes_index args \<and> (\<not> index_valid w args \<or> level_refused args))"
    and "\<not> immediateWrite (maxdev w)"
  shows "\<exists>w' rest. command lib args w = Inr w' \<and> trace w' = trace w @ rest \<and>
           list_all is_command_event rest \<and> EvSendData \<notin> set rest \<and>
           numDevices (maxdev w') = numDevices (maxdev w) \<and>
           \<not> immediateWrite (maxdev w') \<and> bus (maxdev w') = bus (maxdev w)"
proof (cases "takes_index args")
  case True
  with assms(1) have "index_valid w args" "\<not> level_refused args" by auto
  with True obtain m sec where
    touch: "touches_only (nat (index_arg args)) (maxdev w) m"
    and c: "command lib args w =
       Inr (w\<lparr>config := save (markDirty (put_section (config w) (moduleName (index_arg args)) sec)),
              maxdev := m,
              trace := trace w @ [mutation_event args, EvSaveState (nat (index_arg args)),
                                  EvMarkDirty, EvConfigSave]\<rparr>)"
    by (rule command_accepts)
  have "is_command_event (mutation_event args)" "mutation_event args \<noteq> EvSendData"
    by (simp_all add: mutation_event_def)
  with touch assms(2) c show ?thesis
    by (simp add: touches_only_def)
next
  case False
  then have c: "command lib args w =
     (if 1 < length args \<and> args ! 1 = cmdReset then
        Inr (w\<lparr>maxdev := reset lib (maxdev w), trace := trace w @ [EvReset]\<rparr>)
      else if 1 < length args \<and> args ! 1 = cmdSync then
        Inr (w\<lparr>maxdev := setDirty (maxdev w), trace := trace w @ [EvSetDirty]\<rparr>)
      else Inr w)"
    by (rule command_other)
  show ?thesis
    using assms(2) by (simp add: c reset_fields setDirty_fields)
qed



section \<open>Whole runs\<close>

lemma main_after_startup:
  assumes "startup lib cfg = Some (Inr s)"
  shows "main lib argv cfg =
     (case command lib (cmdline argv) s of
        Inl r \<Rightarrow> Some r
      | Inr w' \<Rightarrow>
          Some (Finished, w'\<lparr>maxdev := sendData (maxdev w'), trace := trace w' @ [EvSendData]\<rparr>))"
  using assms by (simp add: main_def)

lemma main_mutation:
  assumes "startup lib cfg = Some (Inr s)"
    and "takes_index (cmdline argv)" and "index_valid s (cmdline argv)"
    and "\<not> level_refused (cmdline argv)"
  obtains m sec where
    "mutator (cmdline argv) (maxdev s) = Inr m"
    "touches_only (nat (index_arg (cmdline argv))) (maxdev s) m"
    "saveState (section_at (config s) (moduleName (index_arg (cmdline argv)))) m
       (nat (index_arg (cmdline argv))) = Inr sec"
    "main lib argv cfg =
       Some (Finished,
         s\<lparr>config := save (markDirty (put_section (config s) (moduleName (index_arg (cmdline argv))) sec)),
           maxdev := sendData m,
           trace := trace s @ [mutation_event (cmdline argv), EvSaveState (nat (index_arg (cmdline argv))),
                               EvMarkDirty, EvConfigSave, EvSendData]\<rparr>)"
proof -
  from assms(2-4) obtain m sec where
    m: "mutator (cmdline argv) (maxdev s) = Inr m"
    and t: "touches_only (nat (index_arg (cmdline argv))) (maxdev s) m"
    and sec: "saveState (section_at (config s) (moduleName (index_arg (cmdline argv)))) m
       (nat (index_arg (cmdline argv))) = Inr sec"
    and c: "command lib (cmdline argv) s =
       Inr (s\<lparr>config := save (markDirty (put_section (config s) (moduleName (index_arg (cmdline argv))) sec)),
              maxdev := m,
              trace := trace s @ [mutation_event (cmdline argv), EvSaveState (nat (index_arg (cmdline argv))),
                                  EvMarkDirty, EvConfigSave]\<rparr>)"
    by (rule command_accepts)
  from assms(1) c have "main lib argv cfg =
       Some (Finished,
         s\<lparr>config := save (markDirty (put_section (config s) (moduleName (index_arg (cmdline argv))) sec)),
           maxdev := sendData m,
           trace := trace s @ [mutation_event (cmdline argv), EvSaveState (nat (index_arg (cmdline argv))),
                               EvMarkDirty, EvConfigSave, EvSendData]\<rparr>)"
    by (simp add: main_after_startup)
  with m t sec show thesis by (rule that)
qed

lemma main_returns:
  assumes "defaultDevices lib \<le> 255"
    and "has_option (load cfg) ''interface:spi-0'' ''modules'' \<longrightarrow>
           atoi (option_at (load cfg) ''interface:spi-0'' ''modules'') \<le> 255"
  shows "\<exists>e w. main lib argv cfg = Some (e, w)"
proof -
  from assms obtain r where r: "startup lib cfg = Some r"
    using startup_returns by blast
  show ?thesis
  proof (cases r)
    case (Inl a)
    with r show ?thesis by (cases a) (simp add: main_def)
  next
    case (Inr s)
    with r show ?thesis
      by (cases "command lib (cmdline argv) s") (auto simp: main_def)
  qed
qed


section \<open>A run on a store with three modules\<close>

lemma demo_startup_value:
  "map_option (map_sum fst (\<lambda>w. (modules (maxdev w), trace w))) (startup demoLibrary demoStore) =
   Some (Inr ([\<lparr>mvalue = None, hasValue = False, brightness = 7, powered = True, dirty = False\<rparr>,
               \<lparr>mvalue = Some 42, hasValue = True, brightness = 3, powered = True, dirty = False\<rparr>,
               \<lparr>mvalue = None, hasValue = False, brightness = 7, powered = True, dirty = False\<rparr>],
              [EvConfigLoad, EvNumDevices 3, EvWriteImmediately False, EvLoadState 1, EvSetClean]))"
  by code_simp

lemma demo_startup:
  "\<exists>s. startup demoLibrary demoStore = Some (Inr s) \<and>
       modules (maxdev s) =
         [\<lparr>mvalue = None, hasValue = False, brightness = 7, powered = True, dirty = False\<rparr>,
          \<lparr>mvalue = Some 42, hasValue = True, brightness = 3, powered = True, dirty = False\<rparr>,
          \<lparr>mvalue = None, hasValue = False, brightness = 7, powered = True, dirty = False\<rparr>] \<and>
       trace s = [EvConfigLoad, EvNumDevices 3, EvWriteImmediately False, EvLoadState 1, EvSetClean]"
proof (cases "startup demoLibrary demoStore")
  case None
  with demo_startup_value show ?thesis by simp
next
  case (Some r)
  with demo_startup_value show ?thesis by (cases r) auto
qed

lemma demo_args:
  "atoi ''1'' = 1" "atoi ''4'' = 4" "atoi ''5'' = 5" "atoi ''16'' = 16" "atoi ''2'' = 2"
  "int32 0 = 0" "int32 1 = 1" "int32 3 = 3"
  by code_simp+

text \<open>
  A numeral outside the range of \<^verbatim>\<open>int\<close> is cut to 32 bits before \<^verbatim>\<open>main\<close> checks it:
  \<^verbatim>\<open>set 4294967297 5\<close> sets module 1, and \<^verbatim>\<open>brightness 1 4294967296\<close> sets the level 0.
\<close>

lemma demo_wrapped_args: "atoi ''4294967297'' = 1" "atoi ''4294967296'' = 0"
  "atoi ''99999999999999999999'' = - 1" "int32 (atoi ''-2147483648'' - 1) = 2147483647"
  by code_simp+

lemma demo_wrapped_index:
  "map_option (\<lambda>r. (fst r, trace (snd r)))
     (main demoLibrary [''max'', ''set'', ''4294967297'', ''5''] emptyStore) =
   Some (Finished, [EvConfigLoad, EvWriteImmediately False, EvSetClean,
                    EvSetNumber 0 5, EvSaveState 0, EvMarkDirty, EvConfigSave, EvSendData])"
  by code_simp

lemma demo_wrapped_level:
  "map_option (\<lambda>r. (fst r, trace (snd r)))
     (main demoLibrary [''max'', ''brightness'', ''1'', ''4294967296''] emptyStore) =
   Some (Finished, [EvConfigLoad, EvWriteImmediately False, EvSetClean,
                    EvSetBrightness 0 0, EvSaveState 0, EvMarkDirty, EvConfigSave, EvSendData])"
  by code_simp

lemma demo_text: "to_string 5 = ''5''" "to_string 3 = ''3''" "moduleName 1 = ''display:2''"
  by code_simp+

lemma demo_set_modules:
  "map_option (\<lambda>r. (fst r, map content (modules (maxdev (snd r)))))
     (main demoLibrary [''max'', ''set'', ''2'', ''5''] demoStore) =
   Some (Finished, [(None, False, 7, True), (Some 5, True, 3, True), (None, False, 7, True)])"
  by code_simp

lemma demo_idle_bus:
  "map_option (\<lambda>r. bus (maxdev (snd r))) (main demoLibrary [''max''] demoStore) =
   Some [[(None, 7, True), (Some 42, 3, True), (None, 7, True)]]"
  by code_simp



section \<open>Section names\<close>

text \<open>
  Claim C6. For every zero-based module index \<open>i\<close>, the name of the persistent section
  is the fixed prefix \<open>display\<close>, a colon, and the decimal numeral of the 1-based module
  number \<open>i + 1\<close>: the first eight characters are the prefix with its colon, the rest
  reads back as \<open>i + 1\<close>, and index 0 gives the name \<open>display:1\<close>.
\<close>

theorem moduleName_one_based:
  "take 8 (moduleName i) = ''display:'' \<and>
   drop 8 (moduleName i) = to_string (i + 1) \<and>
   decimal (drop 8 (moduleName i)) = i + 1 \<and>
   moduleName 0 = ''display:1''"
proof -
  have "moduleName 0 = ''display:1''"
    by code_simp
  then show ?thesis
    by (simp add: moduleName_def decimal_to_string)
qed

text \<open>The program's own \<^verbatim>\<open>atoi\<close> reads the number back whenever it is an \<^verbatim>\<open>int\<close>.\<close>

lemma moduleName_atoi:
  "- 2147483648 \<le> i + 1 \<Longrightarrow> i + 1 \<le> 2147483647 \<Longrightarrow> atoi (drop 8 (moduleName i)) = i + 1"
  by (simp add: moduleName_def atoi_to_string)


section \<open>The order of a run that applies a mutation\<close>

text \<open>
  Claim C1, as stated, fails: with an empty state file and a chain of two modules,
  \<^verbatim>\<open>set 1 5\<close> saves the store before it flushes the chain, so its steps are not in the
  order load, mutation, flush, save.
\<close>

theorem mutation_run_order_counterexample:
  "run_trace demoLibrary [''max'', ''set'', ''1'', ''5''] emptyStore =
     Some [EvConfigLoad, EvWriteImmediately False, EvSetClean,
           EvSetNumber 0 5, EvSaveState 0, EvMarkDirty, EvConfigSave, EvSendData] \<and>
   \<not> spec_order [EvConfigLoad, EvWriteImmediately False, EvSetClean,
           EvSetNumber 0 5, EvSaveState 0, EvMarkDirty, EvConfigSave, EvSendData]"
  by code_simp

text \<open>
  Claim C1, amended. A run that applies a mutation (\<^verbatim>\<open>set\<close>, \<^verbatim>\<open>clear\<close> or \<^verbatim>\<open>brightness\<close>
  with a valid index and, for the brightness, a valid level) performs its steps in the
  order: load the persisted state, apply the one mutation, save to the persistent store,
  flush to the bus, exit. After the events of the start, the trace is the mutation, the
  save of the module's state, the marking of the store, the save of the store and the
  flush, and the run ends by leaving \<^verbatim>\<open>main\<close> normally.
\<close>

theorem mutation_run_order:
  assumes "startup lib cfg = Some (Inr s)"
    and "takes_index (cmdline argv)" and "index_valid s (cmdline argv)"
    and "\<not> level_refused (cmdline argv)"
  shows "\<exists>w. main lib argv cfg = Some (Finished, w) \<and>
             trace w = trace s @ [mutation_event (cmdline argv), EvSaveState (nat (index_arg (cmdline argv))),
                                  EvMarkDirty, EvConfigSave, EvSendData] \<and>
             code_order (trace w) \<and> \<not> spec_order (trace w)"
proof -
  from assms obtain m sec where
    "main lib argv cfg =
       Some (Finished,
         s\<lparr>config := save (markDirty (put_section (config s) (moduleName (index_arg (cmdline argv))) sec)),
           maxdev := sendData m,
           trace := trace s @ [mutation_event (cmdline argv), EvSaveState (nat (index_arg (cmdline argv))),
                               EvMarkDirty, EvConfigSave, EvSendData]\<rparr>)"
    by (rule main_mutation)
  moreover have "steps (trace s @ [mutation_event (cmdline argv), EvSaveState (nat (index_arg (cmdline argv))),
                               EvMarkDirty, EvConfigSave, EvSendData]) =
        [EvConfigLoad, mutation_event (cmdline argv), EvConfigSave, EvSendData]"
    by (simp add: steps_append steps_startup [OF assms(1)]) (simp add: steps_def is_mutation_event)
  ultimately show ?thesis
    by (simp add: code_order_def spec_order_def is_mutation_event)
qed

theorem mutation_run_order_witness:
  "\<exists>s w. startup demoLibrary demoStore = Some (Inr s) \<and>
       main demoLibrary [''max'', ''brightness'', ''2'', ''5''] demoStore = Some (Finished, w) \<and>
       trace w = trace s @ [EvSetBrightness 1 5, EvSaveState 1, EvMarkDirty, EvConfigSave, EvSendData] \<and>
       code_order (trace w) \<and> \<not> spec_order (trace w)"
proof -
  from demo_startup obtain s where s: "startup demoLibrary demoStore = Some (Inr s)"
    and n: "numDevices (maxdev s) = 3"
    by (auto simp: numDevices_def)
  have args: "cmdline [''max'', ''brightness'', ''2'', ''5''] = [''max'', ''brightness'', ''2'', ''5'']"
    by (simp add: cmdline_def optVerbose_def)
  have cmd: "takes_index (cmdline [''max'', ''brightness'', ''2'', ''5''])"
    by (simp add: args takes_index_def cmdBrightness_def)
  have idx: "index_arg (cmdline [''max'', ''brightness'', ''2'', ''5'']) = 1"
    and lvl: "level_arg (cmdline [''max'', ''brightness'', ''2'', ''5'']) = 5"
    by (simp_all add: args index_arg_def level_arg_def demo_args)
  have valid: "index_valid s (cmdline [''max'', ''brightness'', ''2'', ''5''])"
    using n by (simp add: index_valid_def idx)
  have ok: "\<not> level_refused (cmdline [''max'', ''brightness'', ''2'', ''5''])"
    by (simp add: level_refused_def lvl)
  have ev: "mutation_event (cmdline [''max'', ''brightness'', ''2'', ''5'']) = EvSetBrightness 1 5"
    by (simp add: mutation_event_def idx lvl) (simp add: args cmdBrightness_def cmdSet_def cmdClear_def)
  from mutation_run_order [OF s cmd valid ok] s show ?thesis
    by (auto simp: ev idx)
qed


section \<open>Commands that fail their checks\<close>

text \<open>
  Claim C2. For a command that takes a module index (\<^verbatim>\<open>set\<close>, \<^verbatim>\<open>clear\<close>, \<^verbatim>\<open>brightness\<close>,
  with the number of arguments the command asks for) and an index outside
  \<open>[0, numDevices)\<close>, the run ends with the invalid-module-number error, in the very state
  the start left: no module's value, \<open>hasValue\<close>, brightness, power or dirty flag has
  changed, and nothing else has. The index is the \<^verbatim>\<open>int\<close> that \<^verbatim>\<open>main\<close> computes from its
  argument, \<open>index_arg\<close>.
\<close>

theorem invalid_index_refused:
  assumes "startup lib cfg = Some (Inr s)"
    and "takes_index (cmdline argv)"
    and "index_arg (cmdline argv) < 0 \<or> int (numDevices (maxdev s)) \<le> index_arg (cmdline argv)"
  shows "main lib argv cfg = Some (InvalidModuleNumber (index_arg (cmdline argv)), s)"
proof -
  from assms(3) have "\<not> index_valid s (cmdline argv)"
    by (auto simp: index_valid_iff)
  with assms(2) have "command lib (cmdline argv) s =
      Inl (InvalidModuleNumber (index_arg (cmdline argv)), s)"
    by (rule command_refuses_index)
  with assms(1) show ?thesis
    by (simp add: main_after_startup)
qed

theorem invalid_index_refused_witness:
  "\<exists>s. startup demoLibrary demoStore = Some (Inr s) \<and> numDevices (maxdev s) = 3 \<and>
       main demoLibrary [''max'', ''set'', ''4'', ''5''] demoStore = Some (InvalidModuleNumber 3, s)"
proof -
  from demo_startup obtain s where s: "startup demoLibrary demoStore = Some (Inr s)"
    and n: "numDevices (maxdev s) = 3"
    by (auto simp: numDevices_def)
  have args: "cmdline [''max'', ''set'', ''4'', ''5''] = [''max'', ''set'', ''4'', ''5'']"
    by (simp add: cmdline_def optVerbose_def)
  have "takes_index (cmdline [''max'', ''set'', ''4'', ''5''])"
    by (simp add: args takes_index_def cmdSet_def)
  moreover have idx: "index_arg (cmdline [''max'', ''set'', ''4'', ''5'']) = 3"
    by (simp add: args index_arg_def demo_args)
  ultimately have "main demoLibrary [''max'', ''set'', ''4'', ''5''] demoStore =
      Some (InvalidModuleNumber (index_arg (cmdline [''max'', ''set'', ''4'', ''5''])), s)"
    using invalid_index_refused [OF s] n by simp
  with s n idx show ?thesis by auto
qed

text \<open>
  Claim C3. For the \<^verbatim>\<open>brightness\<close> command with a valid module index and a level outside
  \<open>[0, 15]\<close> (16 and -1 among them), the run ends with the brightness-out-of-range error
  in the very state the start left, so before any mutation and with every brightness
  unchanged; the chain's own \<open>setBrightness\<close> would refuse the level with
  \<open>InvalidArgument\<close> as well. The level is the \<^verbatim>\<open>int\<close> that \<^verbatim>\<open>main\<close> reads from its
  argument, \<open>level_arg\<close>.
\<close>

theorem brightness_level_refused:
  assumes "startup lib cfg = Some (Inr s)"
    and "cmdline argv ! 1 = cmdBrightness"
    and "length (cmdline argv) = 4"
    and "0 \<le> index_arg (cmdline argv)"
    and "index_arg (cmdline argv) < int (numDevices (maxdev s))"
    and "level_arg (cmdline argv) < 0 \<or> 15 < level_arg (cmdline argv)"
  shows "main lib argv cfg = Some (BrightnessOutOfRange (level_arg (cmdline argv)), s) \<and>
         setBrightness (maxdev s) (nat (index_arg (cmdline argv))) (level_arg (cmdline argv)) =
           Inl InvalidArgument"
proof -
  have "takes_index (cmdline argv)"
    using assms(2,3) by (simp add: takes_index_def)
  moreover have valid: "index_valid s (cmdline argv)"
    using assms(4,5) by (simp add: index_valid_iff)
  moreover have "level_refused (cmdline argv)"
    using assms(2,6) by (simp add: level_refused_def)
  ultimately have "command lib (cmdline argv) s =
      Inl (BrightnessOutOfRange (level_arg (cmdline argv)), s)"
    by (rule command_refuses_level)
  with assms(1) have "main lib argv cfg = Some (BrightnessOutOfRange (level_arg (cmdline argv)), s)"
    by (simp add: main_after_startup)
  moreover have "setBrightness (maxdev s) (nat (index_arg (cmdline argv))) (level_arg (cmdline argv)) =
           Inl InvalidArgument"
    using valid assms(6) by (auto simp: setBrightness_def index_valid_def)
  ultimately show ?thesis by simp
qed

theorem brightness_level_refused_witness:
  "\<exists>s. startup demoLibrary demoStore = Some (Inr s) \<and>
       map brightness (modules (maxdev s)) = [7, 3, 7] \<and>
       main demoLibrary [''max'', ''-v'', ''brightness'', ''2'', ''16''] demoStore =
         Some (BrightnessOutOfRange 16, s) \<and>
       setBrightness (maxdev s) 1 16 = Inl InvalidArgument"
proof -
  from demo_startup obtain s where s: "startup demoLibrary demoStore = Some (Inr s)"
    and n: "numDevices (maxdev s) = 3" and b: "map brightness (modules (maxdev s)) = [7, 3, 7]"
    by (auto simp: numDevices_def)
  have args: "cmdline [''max'', ''-v'', ''brightness'', ''2'', ''16''] = [''-v'', ''brightness'', ''2'', ''16'']"
    by (simp add: cmdline_def optVerbose_def)
  have idx: "index_arg (cmdline [''max'', ''-v'', ''brightness'', ''2'', ''16'']) = 1"
    and lvl: "level_arg (cmdline [''max'', ''-v'', ''brightness'', ''2'', ''16'']) = 16"
    by (simp_all add: args index_arg_def level_arg_def demo_args)
  have "main demoLibrary [''max'', ''-v'', ''brightness'', ''2'', ''16''] demoStore =
          Some (BrightnessOutOfRange (level_arg (cmdline [''max'', ''-v'', ''brightness'', ''2'', ''16''])), s) \<and>
        setBrightness (maxdev s) (nat (index_arg (cmdline [''max'', ''-v'', ''brightness'', ''2'', ''16''])))
          (level_arg (cmdline [''max'', ''-v'', ''brightness'', ''2'', ''16''])) = Inl InvalidArgument"
    using n by (intro brightness_level_refused [OF s]) (simp_all add: idx lvl, simp_all add: args cmdBrightness_def)
  with s b show ?thesis
    by (auto simp: idx lvl)
qed

text \<open>
  Claim C9. When the check of a command fails (the module index is out of range, or the
  brightness level is outside \<open>[0, 15]\<close>, both as the \<^verbatim>\<open>int\<close> that \<^verbatim>\<open>main\<close> computes), the
  run ends with status -1 in the state the start left: the trace has no save of the
  store and no flush, the file of the store is the one the process found, and nothing
  has been sent on the bus.
\<close>

theorem failed_check_exits:
  assumes "startup lib cfg = Some (Inr s)"
    and "takes_index (cmdline argv)"
    and "\<not> index_valid s (cmdline argv) \<or> level_refused (cmdline argv)"
  shows "\<exists>e. main lib argv cfg = Some (e, s) \<and> exit_status e = Some (- 1) \<and>
             EvConfigSave \<notin> set (trace s) \<and> EvSendData \<notin> set (trace s) \<and>
             stored (config s) = stored cfg \<and> bus (maxdev s) = []"
proof -
  have "\<exists>e. command lib (cmdline argv) s = Inl (e, s) \<and> exit_status e = Some (- 1)"
  proof (cases "index_valid s (cmdline argv)")
    case False
    with assms(2) show ?thesis
      by (simp add: command_refuses_index)
  next
    case True
    with assms(2,3) show ?thesis
      by (simp add: command_refuses_level)
  qed
  then have "\<exists>e. main lib argv cfg = Some (e, s) \<and> exit_status e = Some (- 1)"
    using assms(1) by (auto simp: main_after_startup)
  moreover have "EvConfigSave \<notin> set (trace s)" "EvSendData \<notin> set (trace s)"
    using startup_trace_members [OF assms(1)] by (auto simp: list_all_iff)
  ultimately show ?thesis
    using startup_stored [OF assms(1)] startup_facts(3) [OF assms(1)] by blast
qed

theorem failed_check_exits_witness:
  "\<exists>s. startup demoLibrary demoStore = Some (Inr s) \<and>
       main demoLibrary [''max'', ''clear'', ''4''] demoStore = Some (InvalidModuleNumber 3, s) \<and>
       exit_status (InvalidModuleNumber 3) = Some (- 1) \<and>
       EvConfigSave \<notin> set (trace s) \<and> EvSendData \<notin> set (trace s) \<and>
       stored (config s) = stored demoStore \<and> bus (maxdev s) = []"
proof -
  from demo_startup obtain s where s: "startup demoLibrary demoStore = Some (Inr s)"
    and n: "numDevices (maxdev s) = 3"
    by (auto simp: numDevices_def)
  have args: "cmdline [''max'', ''clear'', ''4''] = [''max'', ''clear'', ''4'']"
    by (simp add: cmdline_def optVerbose_def)
  have cmd: "takes_index (cmdline [''max'', ''clear'', ''4''])"
    by (simp add: args takes_index_def cmdClear_def cmdSet_def)
  have idx: "index_arg (cmdline [''max'', ''clear'', ''4'']) = 3"
    by (simp add: args index_arg_def demo_args)
  then have bad: "\<not> index_valid s (cmdline [''max'', ''clear'', ''4'']) \<or>
      level_refused (cmdline [''max'', ''clear'', ''4''])"
    using n by (simp add: index_valid_def)
  have "command demoLibrary (cmdline [''max'', ''clear'', ''4'']) s = Inl (InvalidModuleNumber 3, s)"
    using cmd bad n idx by (simp add: command_refuses_index index_valid_def)
  then have "main demoLibrary [''max'', ''clear'', ''4''] demoStore = Some (InvalidModuleNumber 3, s)"
    using s by (simp add: main_after_startup)
  with failed_check_exits [OF s cmd bad] s show ?thesis
    by auto
qed


section \<open>The start of every run\<close>



text \<open>
  Claim C7. For a module of the chain whose section is not in the store, the start makes
  no call of \<open>loadState\<close> for it: when the loop comes to this module it goes on to the
  next one with nothing changed, so no error can come from it. After the start the
  module is in its default state: no value, \<open>hasValue\<close> false, the default brightness,
  powered.
\<close>

theorem missing_section_skipped:
  assumes "startup lib cfg = Some (Inr s)"
    and "j < numDevices (maxdev s)"
    and "stored cfg (moduleName (int j)) = None"
  shows "EvLoadState j \<notin> set (trace s) \<and>
         (\<forall>w. config w = load cfg \<and> j < numDevices (maxdev w) \<longrightarrow>
              loadLoop (of_nat j) w = loadLoop (of_nat j + 1) w) \<and>
         mvalue (modules (maxdev s) ! j) = None \<and> \<not> hasValue (modules (maxdev s) ! j) \<and>
         brightness (modules (maxdev s) ! j) = defaultBrightness lib \<and>
         powered (modules (maxdev s) ! j)"
proof -
  from assms(3) have none: "\<not> has (load cfg) (moduleName (int j))"
    by (simp add: has_def load_def)
  then have "j \<notin> set (loaded cfg (numDevices (maxdev s)))"
    by (simp add: loaded_def)
  then have "EvLoadState j \<notin> set (trace s)"
    by (auto simp: startup_facts(6) [OF assms(1)] setup_trace_def)
  moreover have "modules (maxdev s) ! j = newModule lib"
    using startup_facts(7) [OF assms(1)] assms(2) none by simp
  moreover have "loadLoop (of_nat j) w = loadLoop (of_nat j + 1) w"
    if "config w = load cfg \<and> j < numDevices (maxdev w)" for w
  proof -
    have "j \<le> 255"
      using assms(2) startup_facts(4) [OF assms(1)] by simp
    then have "unat (of_nat j :: 8 word) = j" "uint (of_nat j :: 8 word) = int j"
      using byte_of_nat by blast+
    with that none show ?thesis
      by (intro loadLoop_skip) simp_all
  qed
  ultimately show ?thesis
    by (simp add: newModule_def)
qed

theorem missing_section_skipped_witness:
  "\<exists>s. startup demoLibrary demoStore = Some (Inr s) \<and> numDevices (maxdev s) = 3 \<and>
       stored demoStore (moduleName 2) = None \<and>
       EvLoadState 2 \<notin> set (trace s) \<and> EvLoadState 1 \<in> set (trace s) \<and>
       mvalue (modules (maxdev s) ! 2) = None \<and> \<not> hasValue (modules (maxdev s) ! 2) \<and>
       brightness (modules (maxdev s) ! 2) = 7 \<and> powered (modules (maxdev s) ! 2)"
proof -
  from demo_startup obtain s where s: "startup demoLibrary demoStore = Some (Inr s)"
    and n: "numDevices (maxdev s) = 3"
    and ts: "trace s = [EvConfigLoad, EvNumDevices 3, EvWriteImmediately False, EvLoadState 1, EvSetClean]"
    by (auto simp: numDevices_def)
  have name: "moduleName 2 = ''display:3''"
    by code_simp
  have none: "stored demoStore (moduleName (int 2)) = None"
    by (simp add: name demoStore_def)
  have "(2::nat) < numDevices (maxdev s)"
    using n by simp
  from missing_section_skipped [OF s this none] s n none ts show ?thesis
    by (simp add: demoLibrary_def)
qed


section \<open>Saving and flushing\<close>

text \<open>
  Claim C5. After a successful mutation (\<^verbatim>\<open>set\<close>, \<^verbatim>\<open>clear\<close> or \<^verbatim>\<open>brightness\<close> on a valid
  module), the state of the module is saved into its section, then the dirty flag of the
  store is marked, then the save of the store is called, in this order; so that save
  does write: the file of the store then holds the sections in memory, with the section
  of the module carrying the module's \<open>hasValue\<close>, brightness, power and (when it has one)
  value.
\<close>

theorem mutation_saved:
  assumes "startup lib cfg = Some (Inr s)"
    and "takes_index (cmdline argv)" and "index_valid s (cmdline argv)"
    and "\<not> level_refused (cmdline argv)"
  shows "\<exists>w sec. main lib argv cfg = Some (Finished, w) \<and>
           trace w = trace s @ [mutation_event (cmdline argv)] @
              [EvSaveState (nat (index_arg (cmdline argv))), EvMarkDirty, EvConfigSave] @ [EvSendData] \<and>
           stored (config w) = (sections (config s))(moduleName (index_arg (cmdline argv)) \<mapsto> sec) \<and>
           stored (config w) = sections (config w) \<and> \<not> storeDirty (config w) \<and>
           sec keyHasValue =
             Some (flagText (hasValue (modules (maxdev w) ! nat (index_arg (cmdline argv))))) \<and>
           sec keyBrightness =
             Some (to_string (brightness (modules (maxdev w) ! nat (index_arg (cmdline argv))))) \<and>
           sec keyPower =
             Some (flagText (powered (modules (maxdev w) ! nat (index_arg (cmdline argv))))) \<and>
           (\<forall>v. mvalue (modules (maxdev w) ! nat (index_arg (cmdline argv))) = Some v \<longrightarrow>
                sec keyValue = Some (to_string v))"
proof -
  from assms obtain m sec where
    touch: "touches_only (nat (index_arg (cmdline argv))) (maxdev s) m"
    and sec: "saveState (section_at (config s) (moduleName (index_arg (cmdline argv)))) m
       (nat (index_arg (cmdline argv))) = Inr sec"
    and run: "main lib argv cfg =
       Some (Finished,
         s\<lparr>config := save (markDirty (put_section (config s) (moduleName (index_arg (cmdline argv))) sec)),
           maxdev := sendData m,
           trace := trace s @ [mutation_event (cmdline argv), EvSaveState (nat (index_arg (cmdline argv))),
                               EvMarkDirty, EvConfigSave, EvSendData]\<rparr>)"
    by (rule main_mutation)
  have batched: "\<not> immediateWrite m"
    using touch startup_facts(2) [OF assms(1)] by (simp add: touches_only_def)
  have valid: "nat (index_arg (cmdline argv)) < length (modules m)"
    using touch assms(3) by (simp add: touches_only_def index_valid_def numDevices_def)
  have same: "modules (sendData m) ! nat (index_arg (cmdline argv)) =
      (modules m ! nat (index_arg (cmdline argv)))\<lparr>dirty := False\<rparr>"
    using valid by (simp add: sendData_batched(2) [OF batched])
  show ?thesis
    using run saveState_keys [OF sec]
    by (intro exI [of _ "s\<lparr>config := save (markDirty (put_section (config s)
              (moduleName (index_arg (cmdline argv))) sec)),
           maxdev := sendData m,
           trace := trace s @ [mutation_event (cmdline argv), EvSaveState (nat (index_arg (cmdline argv))),
                               EvMarkDirty, EvConfigSave, EvSendData]\<rparr>"] exI [of _ sec])
      (simp add: same save_marked put_section_def)
qed

theorem mutation_saved_witness:
  "\<exists>s w sec. startup demoLibrary demoStore = Some (Inr s) \<and>
       main demoLibrary [''max'', ''set'', ''2'', ''5''] demoStore = Some (Finished, w) \<and>
       trace w = trace s @ [EvSetNumber 1 5, EvSaveState 1, EvMarkDirty, EvConfigSave, EvSendData] \<and>
       stored (config w) ''display:2'' = Some sec \<and> \<not> storeDirty (config w) \<and>
       sec keyValue = Some ''5'' \<and> sec keyHasValue = Some ''1'' \<and>
       sec keyBrightness = Some ''3'' \<and> sec keyPower = Some ''1''"
proof -
  from demo_startup obtain s where s: "startup demoLibrary demoStore = Some (Inr s)"
    and n: "numDevices (maxdev s) = 3"
    by (auto simp: numDevices_def)
  have args: "cmdline [''max'', ''set'', ''2'', ''5''] = [''max'', ''set'', ''2'', ''5'']"
    by (simp add: cmdline_def optVerbose_def)
  have cmd: "takes_index (cmdline [''max'', ''set'', ''2'', ''5''])"
    by (simp add: args takes_index_def cmdSet_def)
  have idx: "index_arg (cmdline [''max'', ''set'', ''2'', ''5'']) = 1"
    and lvl: "level_arg (cmdline [''max'', ''set'', ''2'', ''5'']) = 5"
    by (simp_all add: args index_arg_def level_arg_def demo_args)
  have valid: "index_valid s (cmdline [''max'', ''set'', ''2'', ''5''])"
    using n by (simp add: index_valid_def idx)
  have ok: "\<not> level_refused (cmdline [''max'', ''set'', ''2'', ''5''])"
    by (simp add: level_refused_def args cmdSet_def cmdBrightness_def)
  have ev: "mutation_event (cmdline [''max'', ''set'', ''2'', ''5'']) = EvSetNumber 1 5"
    by (simp add: mutation_event_def idx lvl) (simp add: args cmdSet_def)
  from mutation_saved [OF s cmd valid ok] obtain w sec where
    run: "main demoLibrary [''max'', ''set'', ''2'', ''5''] demoStore = Some (Finished, w)"
    and tr: "trace w = trace s @ [EvSetNumber 1 5, EvSaveState 1, EvMarkDirty, EvConfigSave, EvSendData]"
    and written: "stored (config w) = (sections (config s))(moduleName 1 \<mapsto> sec)"
      "\<not> storeDirty (config w)"
    and keys: "sec keyHasValue = Some (flagText (hasValue (modules (maxdev w) ! 1)))"
      "sec keyBrightness = Some (to_string (brightness (modules (maxdev w) ! 1)))"
      "sec keyPower = Some (flagText (powered (modules (maxdev w) ! 1)))"
      "\<forall>v. mvalue (modules (maxdev w) ! 1) = Some v \<longrightarrow> sec keyValue = Some (to_string v)"
    by (auto simp: ev idx)
  from demo_set_modules run have
    "map content (modules (maxdev w)) = [(None, False, 7, True), (Some 5, True, 3, True), (None, False, 7, True)]"
    by simp
  then have "length (map content (modules (maxdev w))) = 3"
    and "map content (modules (maxdev w)) ! 1 = (Some 5, True, 3, True)"
    by simp_all
  then have "content (modules (maxdev w) ! 1) = (Some 5, True, 3, True)"
    by simp
  then have m: "mvalue (modules (maxdev w) ! 1) = Some 5" "hasValue (modules (maxdev w) ! 1)"
    "brightness (modules (maxdev w) ! 1) = 3" "powered (modules (maxdev w) ! 1)"
    by (simp_all add: content_def)
  from written(1) have "stored (config w) ''display:2'' = Some sec"
    by (simp add: demo_text)
  with s run tr written(2) keys m show ?thesis
    by (auto simp: flagText_def demo_text)
qed

text \<open>
  Claim C8. A run that passes the checks of its command (whatever the command, also an
  unknown one, one with the wrong number of arguments, or none) ends with exactly one
  flush, as its last call; that flush sends one transaction with the frame of every
  module of the chain, dirty or not.
\<close>

theorem flush_once:
  assumes "startup lib cfg = Some (Inr s)"
    and "\<not> (takes_index (cmdline argv) \<and>
            (\<not> index_valid s (cmdline argv) \<or> level_refused (cmdline argv)))"
  shows "\<exists>w. main lib argv cfg = Some (Finished, w) \<and>
             count_list (trace w) EvSendData = 1 \<and> last (trace w) = EvSendData \<and>
             bus (maxdev w) = [map render (modules (maxdev w))] \<and>
             length (modules (maxdev w)) = numDevices (maxdev s)"
proof -
  have batched: "\<not> immediateWrite (maxdev s)"
    using startup_facts(2) [OF assms(1)] by simp
  with assms(2) obtain w' rest where
    c: "command lib (cmdline argv) s = Inr w'"
    and tr: "trace w' = trace s @ rest" "EvSendData \<notin> set rest"
    and dev: "numDevices (maxdev w') = numDevices (maxdev s)" "\<not> immediateWrite (maxdev w')"
      "bus (maxdev w') = bus (maxdev s)"
    using command_passes by blast
  have "EvSendData \<notin> set (trace s)"
    using startup_trace_members [OF assms(1)] by (auto simp: list_all_iff)
  with tr have "count_list (trace w') EvSendData = 0"
    by (simp add: count_list_0_iff)
  moreover have "main lib argv cfg =
      Some (Finished, w'\<lparr>maxdev := sendData (maxdev w'), trace := trace w' @ [EvSendData]\<rparr>)"
    using assms(1) c by (simp add: main_after_startup)
  moreover have "bus (sendData (maxdev w')) = [map render (modules (sendData (maxdev w')))]"
    using dev(3) startup_facts(3) [OF assms(1)]
    by (simp add: sendData_batched(1,3) [OF dev(2)])
  moreover have "length (modules (sendData (maxdev w'))) = numDevices (maxdev s)"
    using dev(1) sendData_batched(5) [OF dev(2)] by (simp add: numDevices_def)
  ultimately show ?thesis
    by simp
qed

theorem flush_once_witness:
  "\<exists>s w. startup demoLibrary demoStore = Some (Inr s) \<and>
       main demoLibrary [''max''] demoStore = Some (Finished, w) \<and>
       count_list (trace w) EvSendData = 1 \<and> last (trace w) = EvSendData \<and>
       bus (maxdev w) = [[(None, 7, True), (Some 42, 3, True), (None, 7, True)]] \<and>
       map render (modules (maxdev w)) = [(None, 7, True), (Some 42, 3, True), (None, 7, True)] \<and>
       map dirty (modules (maxdev s)) = [False, False, False]"
proof -
  from demo_startup obtain s where s: "startup demoLibrary demoStore = Some (Inr s)"
    and clean: "map dirty (modules (maxdev s)) = [False, False, False]"
    by auto
  have "\<not> takes_index (cmdline [''max''])"
    by (simp add: cmdline_def takes_index_def)
  then have "\<not> (takes_index (cmdline [''max'']) \<and>
      (\<not> index_valid s (cmdline [''max'']) \<or> level_refused (cmdline [''max''])))"
    by simp
  from flush_once [OF s this] obtain w where
    w: "main demoLibrary [''max''] demoStore = Some (Finished, w)"
      "count_list (trace w) EvSendData = 1" "last (trace w) = EvSendData"
      "bus (maxdev w) = [map render (modules (maxdev w))]"
    by blast
  from demo_idle_bus w(1) have "bus (maxdev w) = [[(None, 7, True), (Some 42, 3, True), (None, 7, True)]]"
    by simp
  with s clean w show ?thesis
    by auto
qed

text \<open>
  Claim C10. The \<^verbatim>\<open>sync\<close> command leaves the chain with every module marked dirty and
  with the value, \<open>hasValue\<close>, brightness and power of every module as they were; this
  is the state the flush then sends. The run calls neither the save of a module, nor the
  marking of the store, nor the save of the store: its trace after the start is the
  marking of the modules and the flush, and the store (its sections, its dirty flag and
  its file) is what loading made of it, the file being the one the process found.
\<close>

theorem sync_marks_dirty_only:
  assumes "startup lib cfg = Some (Inr s)"
    and "1 < length (cmdline argv)" and "cmdline argv ! 1 = cmdSync"
  shows "\<exists>w'. command lib (cmdline argv) s = Inr w' \<and>
           trace w' = trace s @ [EvSetDirty] \<and>
           list_all dirty (modules (maxdev w')) \<and>
           length (modules (maxdev w')) = length (modules (maxdev s)) \<and>
           map content (modules (maxdev w')) = map content (modules (maxdev s)) \<and>
           config w' = config s \<and>
           (\<exists>w. main lib argv cfg = Some (Finished, w) \<and>
                trace w = trace s @ [EvSetDirty, EvSendData] \<and>
                maxdev w = sendData (maxdev w') \<and>
                bus (maxdev w) = [map render (modules (maxdev w'))] \<and>
                map content (modules (maxdev w)) = map content (modules (maxdev s)) \<and>
                config w = load cfg \<and> stored (config w) = stored cfg \<and>
                storeDirty (config w) = storeDirty cfg)"
proof -
  have "\<not> takes_index (cmdline argv)"
    using assms(3) commands_distinct by (auto simp: takes_index_def)
  then have c: "command lib (cmdline argv) s =
      Inr (s\<lparr>maxdev := setDirty (maxdev s), trace := trace s @ [EvSetDirty]\<rparr>)"
    using assms(2,3) commands_distinct by (simp add: command_other)
  with assms(1) have run: "main lib argv cfg =
      Some (Finished, s\<lparr>maxdev := sendData (setDirty (maxdev s)),
                         trace := trace s @ [EvSetDirty, EvSendData]\<rparr>)"
    by (simp add: main_after_startup)
  have batched: "\<not> immediateWrite (setDirty (maxdev s))"
    using startup_facts(2) [OF assms(1)] by (simp add: setDirty_fields)
  have sent: "bus (sendData (setDirty (maxdev s))) = [map render (modules (setDirty (maxdev s)))]"
    using startup_facts(3) [OF assms(1)]
    by (simp add: sendData_batched(1) [OF batched] setDirty_fields)
  have same: "map content (modules (sendData (setDirty (maxdev s)))) = map content (modules (maxdev s))"
    by (simp add: sendData_batched(4) [OF batched] setDirty_fields)
  have len: "length (modules (setDirty (maxdev s))) = length (modules (maxdev s))"
    using setDirty_fields(1) [of "maxdev s"] by (simp add: numDevices_def)
  show ?thesis
    using c run sent same len startup_facts(1) [OF assms(1)]
    by (simp add: setDirty_fields load_def)
qed

theorem sync_marks_dirty_only_witness:
  "\<exists>s w' w. startup demoLibrary demoStore = Some (Inr s) \<and>
       map dirty (modules (maxdev s)) = [False, False, False] \<and>
       command demoLibrary (cmdline [''max'', ''sync'']) s = Inr w' \<and>
       map dirty (modules (maxdev w')) = [True, True, True] \<and>
       map content (modules (maxdev w')) =
         [(None, False, 7, True), (Some 42, True, 3, True), (None, False, 7, True)] \<and>
       map content (modules (maxdev s)) =
         [(None, False, 7, True), (Some 42, True, 3, True), (None, False, 7, True)] \<and>
       main demoLibrary [''max'', ''sync''] demoStore = Some (Finished, w) \<and>
       trace w = trace s @ [EvSetDirty, EvSendData] \<and>
       stored (config w) = stored demoStore"
proof -
  from demo_startup obtain s where s: "startup demoLibrary demoStore = Some (Inr s)"
    and ms: "modules (maxdev s) =
         [\<lparr>mvalue = None, hasValue = False, brightness = 7, powered = True, dirty = False\<rparr>,
          \<lparr>mvalue = Some 42, hasValue = True, brightness = 3, powered = True, dirty = False\<rparr>,
          \<lparr>mvalue = None, hasValue = False, brightness = 7, powered = True, dirty = False\<rparr>]"
    by auto
  have args: "1 < length (cmdline [''max'', ''sync''])" "cmdline [''max'', ''sync''] ! 1 = cmdSync"
    by (simp_all add: cmdline_def optVerbose_def cmdSync_def)
  from sync_marks_dirty_only [OF s args] obtain w' w where
    c: "command demoLibrary (cmdline [''max'', ''sync'']) s = Inr w'"
    and d: "list_all dirty (modules (maxdev w'))"
      "length (modules (maxdev w')) = length (modules (maxdev s))"
      "map content (modules (maxdev w')) = map content (modules (maxdev s))"
    and w: "main demoLibrary [''max'', ''sync''] demoStore = Some (Finished, w)"
      "trace w = trace s @ [EvSetDirty, EvSendData]"
      "stored (config w) = stored demoStore"
    by blast
  from d(1,2) have "map dirty (modules (maxdev w')) = [True, True, True]"
    by (simp add: all_dirty_map ms numeral_3_eq_3)
  moreover have "map content (modules (maxdev s)) =
         [(None, False, 7, True), (Some 42, True, 3, True), (None, False, 7, True)]"
    by (simp add: ms content_def)
  moreover have "map dirty (modules (maxdev s)) = [False, False, False]"
    by (simp add: ms)
  ultimately show ?thesis
    using s c d(3) w by auto
qed

end
